theory Spec2Isabelle
  imports Complex_Main "HOL-Library.Word" "HOL-Library.Multiset"
begin

section \<open>Seeded derivation (puzzleGenerator.js)\<close>

text \<open>
  The generator derives every parameter from \<^verbatim>\<open>SHA256(seed).toString()\<close>, cut to its
  first 8 hexadecimal characters and read by \<^verbatim>\<open>parseInt(_, 16)\<close>. SHA-256 comes from the
  crypto-js package, which is not part of the repository, so the model takes it as a
  parameter \<open>H\<close>: \<open>H s\<close> is the first 32-bit word of the digest of \<open>s\<close>. The 8 hexadecimal
  characters are exactly that word, and \<open>parseInt\<close> reads it as an unsigned number.

  JavaScript numbers are modelled by \<open>int\<close>; every value the generator computes is an
  integer far below \<open>2^53\<close>, where the double arithmetic of the source is exact.
\<close>

type_synonym digest = "string \<Rightarrow> 32 word"

definition sr :: "digest \<Rightarrow> string \<Rightarrow> int" where
  "sr H seedString = uint (H seedString)"

text \<open>
  \<^verbatim>\<open>min + (sr(seed) % (max - min + 1))\<close>. The dividend is never negative and every call
  of the source passes \<open>min \<le> max\<close>, where the remainder of JavaScript is \<open>mod\<close>.
\<close>

definition srRange :: "digest \<Rightarrow> string \<Rightarrow> int \<Rightarrow> int \<Rightarrow> int" where
  "srRange H seed mn mx = mn + sr H seed mod (mx - mn + 1)"

subsection \<open>Numbers in strings\<close>

text \<open>
  String concatenation with a number (\<^verbatim>\<open>date + "blank" + a\<close>, template literals) writes
  the number in decimal.
\<close>

fun digits :: "nat \<Rightarrow> string" where
  "digits n =
     (if n < 10 then [''0123456789'' ! n]
      else digits (n div 10) @ [''0123456789'' ! (n mod 10)])"

declare digits.simps [simp del]

definition str_of_int :: "int \<Rightarrow> string" where
  "str_of_int i = (if i < 0 then ''-'' @ digits (nat (- i)) else digits (nat i))"

text \<open>
  The hint texts contain three characters outside ASCII; they are written as their
  UTF-8 bytes.
\<close>

definition times_sign :: string where
  "times_sign = [CHR 0xC3, CHR 0x97]"

definition superscript_two :: string where
  "superscript_two = [CHR 0xC2, CHR 0xB2]"

definition en_dash :: string where
  "en_dash = [CHR 0xE2, CHR 0x80, CHR 0x93]"

subsection \<open>Object literals indexed by a string\<close>

text \<open>
  \<^verbatim>\<open>table[key] ?? fallback\<close> on an object literal is a lookup in an association list.
  A JavaScript object literal also answers to the member names it inherits from
  \<open>Object.prototype\<close>; for such a key the lookup is not nullish and the fallback is not
  taken. The association list does not model that, so theorems about arbitrary keys
  exclude these names by the hypothesis \<open>plain_key\<close>.
\<close>

definition prototype_members :: "string list" where
  "prototype_members =
     [''constructor'', ''toString'', ''toLocaleString'', ''valueOf'', ''hasOwnProperty'',
      ''isPrototypeOf'', ''propertyIsEnumerable'', ''__proto__'', ''__defineGetter__'',
      ''__defineSetter__'', ''__lookupGetter__'', ''__lookupSetter__'']"

definition plain_key :: "string \<Rightarrow> bool" where
  "plain_key k = (k \<notin> set prototype_members)"

section \<open>Sequence puzzles\<close>

datatype error = Error string

record puzzle_base =
  ptype :: string
  hint :: string
  patternKey :: string
  pdifficulty :: string
  pdate :: string

record seq_puzzle = puzzle_base +
  sequence :: "int list"
  answer :: int

definition pickSequencePattern :: "digest \<Rightarrow> string \<Rightarrow> string \<Rightarrow> string" where
  "pickSequencePattern H date difficulty =
     (let pick = sr H (date @ ''seqpattern'') mod 2;
          patterns = [(''easy'',   [''arithmetic'', ''geometric'']),
                      (''medium'', [''squares'', ''fibonacci'']),
                      (''hard'',   [''alternating'', ''polynomial''])]
      in case map_of patterns difficulty of
           None \<Rightarrow> ''arithmetic''
         | Some ps \<Rightarrow> ps ! nat pick)"

text \<open>A generator returns \<open>(sequence, answer, hint)\<close>.\<close>

type_synonym gen_result = "int list \<times> int \<times> string"

definition genArithmetic :: "digest \<Rightarrow> string \<Rightarrow> string \<Rightarrow> gen_result" where
  "genArithmetic H date difficulty =
     (let ranges = [(''easy'',   (1, 10, 2, 6)),
                    (''medium'', (5, 30, 4, 12)),
                    (''hard'',   (10, 50, 7, 20))];
          r = (case map_of ranges difficulty of None \<Rightarrow> (1, 10, 2, 6) | Some q \<Rightarrow> q);
          (baseMin, baseMax, stepMin, stepMax) = r;
          base = srRange H (date @ ''arith_base'') baseMin baseMax;
          step = srRange H (date @ ''arith_step'') stepMin stepMax;
          terms = map (\<lambda>i. base + int i * step) [0..<5]
      in (terms, base + 5 * step,
          ''Arithmetic sequence (+'' @ str_of_int step @ '' each term)''))"

definition genGeometric :: "digest \<Rightarrow> string \<Rightarrow> string \<Rightarrow> gen_result" where
  "genGeometric H date difficulty =
     (let ranges = [(''easy'',   (1, 4, 2, 3)),
                    (''medium'', (1, 5, 2, 4)),
                    (''hard'',   (2, 6, 3, 5))];
          r = (case map_of ranges difficulty of None \<Rightarrow> (1, 4, 2, 3) | Some q \<Rightarrow> q);
          (baseMin, baseMax, ratioMin, ratioMax) = r;
          base = srRange H (date @ ''geo_base'') baseMin baseMax;
          ratio = srRange H (date @ ''geo_ratio'') ratioMin ratioMax;
          terms = map (\<lambda>i. base * ratio ^ i) [0..<5]
      in (terms, base * ratio ^ 5,
          ''Geometric sequence ('' @ times_sign @ str_of_int ratio @ '' each term)''))"

definition genSquares :: "digest \<Rightarrow> string \<Rightarrow> gen_result" where
  "genSquares H date =
     (let startN = srRange H (date @ ''sq_start'') 1 8;
          terms = map (\<lambda>i. (startN + int i) ^ 2) [0..<5]
      in (terms, (startN + 5) ^ 2,
          ''Perfect squares starting from '' @ str_of_int startN @ superscript_two))"

definition genFibonacci :: "digest \<Rightarrow> string \<Rightarrow> gen_result" where
  "genFibonacci H date =
     (let a0 = srRange H (date @ ''fib_a0'') 1 5;
          a1 = srRange H (date @ ''fib_a1'') 2 8;
          terms = fold (\<lambda>i ts. ts @ [ts ! (i - 1) + ts ! (i - 2)]) [2..<5] [a0, a1]
      in (terms, terms ! 3 + terms ! 4,
          ''Each term = sum of previous two (Fibonacci-style)''))"

definition genAlternating :: "digest \<Rightarrow> string \<Rightarrow> gen_result" where
  "genAlternating H date =
     (let base = srRange H (date @ ''alt_base'') 2 5;
          ratio = srRange H (date @ ''alt_ratio'') 2 3;
          terms = map (\<lambda>i. (- 1) ^ i * base * ratio ^ i) [0..<5]
      in (terms, (- 1) ^ 5 * base * ratio ^ 5,
          ''Alternating signs, geometric growth ('' @ times_sign @ str_of_int ratio @ '')''))"

definition genPolynomial :: "digest \<Rightarrow> string \<Rightarrow> gen_result" where
  "genPolynomial H date =
     (let a = srRange H (date @ ''poly_a'') 1 5;
          b = srRange H (date @ ''poly_b'') 1 4;
          c = srRange H (date @ ''poly_c'') 1 3;
          terms = map (\<lambda>i. a + b * (int i + 1) + c * (int i + 1) ^ 2) [0..<5]
      in (terms, a + b * 6 + c * 36,
          ''Quadratic sequence (a + b'' @ times_sign @ ''n + c'' @ times_sign @ ''n''
            @ superscript_two @ '')''))"

text \<open>
  No path of \<^verbatim>\<open>generateSequencePuzzle\<close> or \<^verbatim>\<open>generateMatrixPuzzle\<close> throws; the result
  type has an error branch so that "the call fails" can be said at all.
\<close>

definition generateSequencePuzzle :: "digest \<Rightarrow> string \<Rightarrow> string \<Rightarrow> error + seq_puzzle" where
  "generateSequencePuzzle H date difficulty =
     (let pattern = pickSequencePattern H date difficulty;
          result =
            (if pattern = ''geometric'' then genGeometric H date difficulty
             else if pattern = ''squares'' then genSquares H date
             else if pattern = ''fibonacci'' then genFibonacci H date
             else if pattern = ''alternating'' then genAlternating H date
             else if pattern = ''polynomial'' then genPolynomial H date
             else genArithmetic H date difficulty)
      in case result of (terms, ans, h) \<Rightarrow>
           Inr \<lparr> ptype = ''sequence'', hint = h, patternKey = pattern,
                 pdifficulty = difficulty, pdate = date,
                 sequence = terms, answer = ans \<rparr>)"

section \<open>Matrix puzzles\<close>

text \<open>
  A cell of a JavaScript array is a number, \<^verbatim>\<open>null\<close>, or (after a write beyond the end
  of the array) a hole that reads as \<^verbatim>\<open>undefined\<close>.
\<close>

datatype cell = Num int | Null | Undefined

record mat_puzzle = puzzle_base +
  grid :: "cell list"
  solution :: "int list"

definition pickMatrixPattern :: "digest \<Rightarrow> string \<Rightarrow> string \<Rightarrow> string" where
  "pickMatrixPattern H date difficulty =
     (let patterns = [(''easy'',   [''arithmetic'']),
                      (''medium'', [''arithmetic'', ''multiplication'']),
                      (''hard'',   [''multiplication'', ''polynomial''])];
          opts = (case map_of patterns difficulty of None \<Rightarrow> [''arithmetic''] | Some ps \<Rightarrow> ps);
          pick = sr H (date @ ''matpattern'') mod int (length opts)
      in opts ! nat pick)"

text \<open>A grid builder returns \<open>(grid, hint, ruleKey)\<close>; the grid is row-major.\<close>

type_synonym built = "int list \<times> string \<times> string"

definition rowMajor :: "(int \<Rightarrow> int \<Rightarrow> int) \<Rightarrow> int list" where
  "rowMajor f = concat (map (\<lambda>r. map (\<lambda>c. f (int r) (int c)) [0..<4]) [0..<4])"

definition buildArithmeticGrid :: "digest \<Rightarrow> string \<Rightarrow> built" where
  "buildArithmeticGrid H date =
     (let base = srRange H (date @ ''mat_base'') 2 10;
          rowStep = srRange H (date @ ''mat_rowstep'') 2 8;
          colStep = srRange H (date @ ''mat_colstep'') 1 6
      in (rowMajor (\<lambda>r c. base + r * rowStep + c * colStep),
          ''Row increases by '' @ str_of_int rowStep @ '', column increases by ''
            @ str_of_int colStep,
          ''arithmetic''))"

definition buildMultiplicationGrid :: "digest \<Rightarrow> string \<Rightarrow> built" where
  "buildMultiplicationGrid H date =
     (let rBase = srRange H (date @ ''mul_rbase'') 1 5;
          cBase = srRange H (date @ ''mul_cbase'') 1 5
      in (rowMajor (\<lambda>r c. (r + rBase) * (c + cBase)),
          ''Multiplication table: row factor '' @ str_of_int rBase @ en_dash
            @ str_of_int (rBase + 3) @ '', column factor '' @ str_of_int cBase @ en_dash
            @ str_of_int (cBase + 3),
          ''multiplication''))"

definition buildPolynomialGrid :: "digest \<Rightarrow> string \<Rightarrow> built" where
  "buildPolynomialGrid H date =
     (let base = srRange H (date @ ''poly_base'') 1 5;
          rowStep = srRange H (date @ ''poly_rs'') 2 5;
          colStep = srRange H (date @ ''poly_cs'') 1 4;
          mixStep = srRange H (date @ ''poly_mix'') 1 3
      in (rowMajor (\<lambda>r c. base + r * rowStep + c * colStep + r * c * mixStep),
          ''Each cell = base + row'' @ times_sign @ str_of_int rowStep @ '' + col''
            @ times_sign @ str_of_int colStep @ '' + row'' @ times_sign @ ''col''
            @ times_sign @ str_of_int mixStep,
          ''polynomial''))"

subsection \<open>Blank cell selection\<close>

text \<open>
  \<^verbatim>\<open>indices.sort(cmp)\<close> sorts in place with the comparator
  \<^verbatim>\<open>sr(date + "blank" + a) - sr(date + "blank" + b)\<close>: a stable sort on that key.
  \<open>indices\<close> and \<open>shuffled\<close> are the same array afterwards.
\<close>

definition shuffledIndices :: "digest \<Rightarrow> string \<Rightarrow> nat list" where
  "shuffledIndices H date =
     sort_key (\<lambda>a. sr H (date @ ''blank'' @ digits a)) [0..<16]"

text \<open>A \<^verbatim>\<open>Set\<close> keeps its members in insertion order; adding a member twice changes nothing.\<close>

definition set_add :: "'a \<Rightarrow> 'a list \<Rightarrow> 'a list" where
  "set_add x xs = (if x \<in> set xs then xs else xs @ [x])"

definition visibleInRow :: "nat list \<Rightarrow> nat list \<Rightarrow> nat \<Rightarrow> nat" where
  "visibleInRow indices blanked idx =
     length (filter (\<lambda>i. i div 4 = idx div 4 \<and> i \<noteq> idx \<and> i \<notin> set blanked) indices)"

definition visibleInCol :: "nat list \<Rightarrow> nat list \<Rightarrow> nat \<Rightarrow> nat" where
  "visibleInCol indices blanked idx =
     length (filter (\<lambda>i. i mod 4 = idx mod 4 \<and> i \<noteq> idx \<and> i \<notin> set blanked) indices)"

text \<open>The \<^verbatim>\<open>for (const idx of shuffled)\<close> loop with its \<^verbatim>\<open>break\<close>.\<close>

fun blankLoop :: "nat list \<Rightarrow> int \<Rightarrow> nat list \<Rightarrow> nat list \<Rightarrow> nat list" where
  "blankLoop indices cnt blanked [] = blanked"
| "blankLoop indices cnt blanked (idx # rest) =
     (if int (length blanked) \<ge> cnt then blanked
      else if visibleInRow indices blanked idx \<ge> 2 \<and> visibleInCol indices blanked idx \<ge> 2
           then blankLoop indices cnt (set_add idx blanked) rest
           else blankLoop indices cnt blanked rest)"

text \<open>
  \<^verbatim>\<open>puzzle[idx] = null\<close>: inside the array the cell is replaced; beyond its end the
  array grows, and the cells in between are holes.
\<close>

definition js_set :: "cell list \<Rightarrow> nat \<Rightarrow> cell \<Rightarrow> cell list" where
  "js_set xs i v =
     (if i < length xs then xs[i := v]
      else xs @ replicate (i - length xs) Undefined @ [v])"

definition blankCells :: "digest \<Rightarrow> int list \<Rightarrow> int \<Rightarrow> string \<Rightarrow> cell list" where
  "blankCells H flatGrid cnt date =
     (let puzzle = map Num flatGrid;
          shuffled = shuffledIndices H date;
          blanked = blankLoop shuffled cnt [] shuffled
      in fold (\<lambda>idx p. js_set p idx Null) blanked puzzle)"

definition generateMatrixPuzzle :: "digest \<Rightarrow> string \<Rightarrow> string \<Rightarrow> error + mat_puzzle" where
  "generateMatrixPuzzle H date difficulty =
     (let pattern = pickMatrixPattern H date difficulty;
          built =
            (if pattern = ''multiplication'' then buildMultiplicationGrid H date
             else if pattern = ''polynomial'' then buildPolynomialGrid H date
             else buildArithmeticGrid H date);
          blankCount = (case map_of [(''easy'', 3), (''medium'', 5), (''hard'', 7)] difficulty of
                          None \<Rightarrow> 3 | Some n \<Rightarrow> n)
      in case built of (g, h, ruleKey) \<Rightarrow>
           Inr \<lparr> ptype = ''matrix'', hint = h, patternKey = ruleKey,
                 pdifficulty = difficulty, pdate = date,
                 grid = blankCells H g blankCount date, solution = g \<rparr>)"

text \<open>
  The first 32 bits of SHA-256 at the seeds of the dates \<^verbatim>\<open>2024-01-01\<close> and
  \<^verbatim>\<open>tomorrow\<close> (a malformed date), for running the generators on concrete inputs.
  Every other seed is mapped to 0; no evaluation below reads one.
\<close>

definition sha_rows :: "(string \<times> 32 word) list" where
  "sha_rows =
     [(''2024-01-01seqpattern'', 0xdacf5b2b), (''2024-01-01arith_base'', 0x40f0dd7d),
      (''2024-01-01arith_step'', 0x79a22a6e), (''2024-01-01geo_base'', 0x5c91810c),
      (''2024-01-01geo_ratio'', 0x9942e5ab), (''2024-01-01matpattern'', 0x4d52e2f2),
      (''2024-01-01mat_base'', 0xad181d1f), (''2024-01-01mat_rowstep'', 0xee761932),
      (''2024-01-01mat_colstep'', 0x41efe431), (''2024-01-01mul_rbase'', 0x77d3cdd0),
      (''2024-01-01mul_cbase'', 0x3cbf62ad), (''2024-01-01poly_base'', 0xb0f9f9cf),
      (''2024-01-01poly_rs'', 0x07efc709), (''2024-01-01poly_cs'', 0xba92c649),
      (''2024-01-01poly_mix'', 0xd64a6b98), (''2024-01-01alt_base'', 0x4ef4ac93),
      (''2024-01-01alt_ratio'', 0xa53daa4a), (''2024-01-01poly_a'', 0x2999e9b3),
      (''2024-01-01poly_b'', 0x5dff1fd5), (''2024-01-01poly_c'', 0x62dc9096),
      (''2024-01-01blank0'', 0x7c037356), (''2024-01-01blank1'', 0x0d4e52d2),
      (''2024-01-01blank2'', 0xb8a8f084), (''2024-01-01blank3'', 0xff863d2a),
      (''2024-01-01blank4'', 0x878a58c8), (''2024-01-01blank5'', 0x12b6ce41),
      (''2024-01-01blank6'', 0x29df3859), (''2024-01-01blank7'', 0x6360c64f),
      (''2024-01-01blank8'', 0x27719d18), (''2024-01-01blank9'', 0x5e97eb68),
      (''2024-01-01blank10'', 0x7ce47fd9), (''2024-01-01blank11'', 0x2f95538b),
      (''2024-01-01blank12'', 0xf99838a8), (''2024-01-01blank13'', 0xc12e3171),
      (''2024-01-01blank14'', 0xf02ee533), (''2024-01-01blank15'', 0xd0ddc0fe),
      (''tomorrowseqpattern'', 0x60f24c12), (''tomorrowarith_base'', 0xc090a425),
      (''tomorrowarith_step'', 0x909d0e79)]"

definition sha_table :: digest where
  "sha_table s = (case map_of sha_rows s of None \<Rightarrow> 0 | Some w \<Rightarrow> w)"

section \<open>Activity store (db.js)\<close>

text \<open>
  An activity record as the canonical schema of \<^verbatim>\<open>db.js\<close> lists it. The fields that the
  readers guard with \<^verbatim>\<open>??\<close> are optional (\<open>None\<close> is \<^verbatim>\<open>null\<close> or \<^verbatim>\<open>undefined\<close>). The type of
  the date is a parameter: the store keys records by the date string, and the streak
  computations, which only do calendar arithmetic on it, read it as a day number.
\<close>

record 'd activity =
  date :: 'd
  uid :: string
  score :: "int option"
  timeTaken :: "int option"
  difficulty :: "string option"
  solved :: bool
  attempts :: "int option"
  puzzleSeed :: string
  synced :: int
  createdAt :: "int option"

text \<open>Values a caller may put into the fields that \<^verbatim>\<open>saveDailyActivity\<close> inspects.\<close>

datatype jsval = JUndefined | JNull | JBool bool | JNum int | JStr string

fun nullish :: "jsval \<Rightarrow> bool" where
  "nullish JUndefined = True"
| "nullish JNull = True"
| "nullish _ = False"

fun truthy :: "jsval \<Rightarrow> bool" where
  "truthy JUndefined = False"
| "truthy JNull = False"
| "truthy (JBool b) = b"
| "truthy (JNum n) = (n \<noteq> 0)"
| "truthy (JStr s) = (s \<noteq> [])"

text \<open>The argument of \<^verbatim>\<open>saveDailyActivity\<close>: any field may be missing.\<close>

record activity_patch =
  p_date :: jsval
  p_uid :: "string option"
  p_score :: "int option"
  p_timeTaken :: "int option"
  p_difficulty :: "string option"
  p_solved :: "bool option"
  p_attempts :: "int option"
  p_puzzleSeed :: "string option"
  p_synced :: jsval
  p_createdAt :: "int option"

text \<open>\<^verbatim>\<open>a ?? b\<close> on optional values, and with a last total alternative.\<close>

fun orElse :: "'a option \<Rightarrow> 'a option \<Rightarrow> 'a option" where
  "orElse (Some x) _ = Some x"
| "orElse None y = y"

fun orDefault :: "'a option \<Rightarrow> 'a \<Rightarrow> 'a" where
  "orDefault (Some x) _ = x"
| "orDefault None y = y"

type_synonym table = "string \<rightharpoonup> string activity"

text \<open>
  \<open>now\<close> is \<^verbatim>\<open>Date.now()\<close>. The result is the record written and the table after
  \<^verbatim>\<open>put\<close>; the \<^verbatim>\<open>throw\<close> of the guard is the error branch.
\<close>

definition saveDailyActivity ::
  "int \<Rightarrow> table \<Rightarrow> activity_patch \<Rightarrow> error + (string activity \<times> table)" where
  "saveDailyActivity now tbl a =
     (case p_date a of
        JStr key \<Rightarrow>
          if key = [] then Inl (Error ''[DB] saveDailyActivity: `date` must be a non-empty string.'')
          else
            (let existing = tbl key;
                 rec = \<lparr> date = key,
                         uid = orDefault (orElse (p_uid a) (map_option uid existing)) [],
                         score = Some (orDefault (orElse (p_score a) (Option.bind existing score)) 0),
                         timeTaken = Some (orDefault (orElse (p_timeTaken a) (Option.bind existing timeTaken)) 0),
                         difficulty = Some (orDefault (orElse (p_difficulty a) (Option.bind existing difficulty)) ''easy''),
                         solved = orDefault (orElse (p_solved a) (map_option solved existing)) False,
                         attempts = Some (orDefault (orElse (p_attempts a) (Option.bind existing attempts)) 1),
                         puzzleSeed = orDefault (orElse (p_puzzleSeed a) (map_option puzzleSeed existing)) [],
                         synced =
                           (if truthy (if \<not> nullish (p_synced a) then p_synced a
                                       else (case existing of Some e \<Rightarrow> JNum (synced e)
                                                            | None \<Rightarrow> JNum 0))
                            then 1 else 0),
                         createdAt =
                           Some (orDefault (orElse (Option.bind existing createdAt) (p_createdAt a)) now) \<rparr>
             in Inr (rec, tbl(key \<mapsto> rec)))
      | _ \<Rightarrow> Inl (Error ''[DB] saveDailyActivity: `date` must be a non-empty string.''))"

text \<open>
  The other writers of the table. \<^verbatim>\<open>update(key, changes)\<close> changes the record under
  the key when there is one and does nothing otherwise; \<^verbatim>\<open>patchActivity\<close> returns at once
  on an empty date.
\<close>

definition tableUpdate :: "table \<Rightarrow> string \<Rightarrow> (string activity \<Rightarrow> string activity) \<Rightarrow> table" where
  "tableUpdate tbl key changes =
     (case tbl key of None \<Rightarrow> tbl | Some e \<Rightarrow> tbl(key \<mapsto> changes e))"

definition patchActivity :: "table \<Rightarrow> string \<Rightarrow> (string activity \<Rightarrow> string activity) \<Rightarrow> table" where
  "patchActivity tbl d patch = (if d = [] then tbl else tableUpdate tbl d patch)"

definition getActivityByDate :: "table \<Rightarrow> string \<Rightarrow> string activity option" where
  "getActivityByDate tbl d = (if d = [] then None else tbl d)"

definition markActivitiesSynced :: "table \<Rightarrow> string list \<Rightarrow> table" where
  "markActivitiesSynced tbl dates =
     fold (\<lambda>d t. tableUpdate t d (\<lambda>r. r\<lparr> synced := 1 \<rparr>)) dates tbl"

definition incrementAttempts :: "table \<Rightarrow> string \<Rightarrow> table" where
  "incrementAttempts tbl d =
     (if d = [] then tbl
      else case getActivityByDate tbl d of
             None \<Rightarrow> tbl
           | Some existing \<Rightarrow>
               patchActivity tbl d (\<lambda>r. r\<lparr> attempts := Some (orDefault (attempts existing) 0 + 1) \<rparr>))"

text \<open>
  The tables the code can produce: the version 4 upgrade clears the table, and from then
  on it is written by \<^verbatim>\<open>saveDailyActivity\<close>, \<^verbatim>\<open>incrementAttempts\<close> and
  \<^verbatim>\<open>markActivitiesSynced\<close> only.
\<close>

inductive reachable :: "table \<Rightarrow> bool" where
  cleared: "reachable Map.empty"
| saved: "reachable tbl \<Longrightarrow> saveDailyActivity now tbl a = Inr (r, tbl') \<Longrightarrow> reachable tbl'"
| attempted: "reachable tbl \<Longrightarrow> reachable (incrementAttempts tbl d)"
| marked: "reachable tbl \<Longrightarrow> reachable (markActivitiesSynced tbl dates)"

text \<open>
  The readers work on \<^verbatim>\<open>toArray()\<close>, the list of all records. \<^verbatim>\<open>getAllActivities\<close> sorts it
  with the comparator \<^verbatim>\<open>b.date > a.date ? 1 : -1\<close>, newest first; the dates of a table are
  its primary key, so no two records compare equal.
\<close>

definition getAllActivities :: "('d::linorder) activity list \<Rightarrow> 'd activity list" where
  "getAllActivities allRecords = rev (sort_key date allRecords)"

definition getRecentSolvedActivities :: "nat \<Rightarrow> ('d::linorder) activity list \<Rightarrow> 'd activity list" where
  "getRecentSolvedActivities n allRecords = take n (filter solved (getAllActivities allRecords))"

section \<open>Difficulty engine (Difficultyengine.js)\<close>

text \<open>
  The scores divide and round; the model reads the arithmetic over the reals, and
  \<^verbatim>\<open>Math.round\<close> as rounding half up.
\<close>

definition Math_round :: "real \<Rightarrow> int" where
  "Math_round x = \<lfloor>x + 1 / 2\<rfloor>"

definition em_dash :: string where
  "em_dash = [CHR 0xE2, CHR 0x80, CHR 0x94]"

record adaptive =
  puzzleType :: string
  newDifficulty :: string
  performanceScore :: int
  trend :: string
  reason :: string

definition DIFFICULTY_UP :: "string \<Rightarrow> string" where
  "DIFFICULTY_UP d =
     orDefault (map_of [(''easy'', ''medium''), (''medium'', ''hard''), (''hard'', ''hard'')] d)
       ''undefined''"

definition DIFFICULTY_DOWN :: "string \<Rightarrow> string" where
  "DIFFICULTY_DOWN d =
     orDefault (map_of [(''easy'', ''easy''), (''medium'', ''easy''), (''hard'', ''medium'')] d)
       ''undefined''"

text \<open>
  \<^verbatim>\<open>counts[d]++\<close> for each record whose difficulty is a key of \<open>counts\<close>, then the first
  entry of the entries sorted by decreasing count (a stable sort).
\<close>

definition getDominantDifficulty :: "'d activity list \<Rightarrow> string" where
  "getDominantDifficulty solvedActs =
     (if solvedActs = [] then ''easy''
      else
        (let counts =
               fold (\<lambda>a cs. let d = orDefault (difficulty a) ''easy''
                             in map (\<lambda>(k, c). if k = d then (k, c + 1) else (k, c)) cs)
                    solvedActs [(''easy'', 0::int), (''medium'', 0), (''hard'', 0)]
         in fst (hd (sort_key (\<lambda>e. - snd e) counts))))"

definition computeSpeedScore :: "'d activity list \<Rightarrow> string \<Rightarrow> int" where
  "computeSpeedScore solvedActs d =
     (if solvedActs = [] then 20
      else
        (let avgTime = real_of_int (foldl (\<lambda>sum a. sum + orDefault (timeTaken a) 60) 0 solvedActs)
                         / real (length solvedActs);
             expected = orDefault (map_of [(''easy'', 60::int), (''medium'', 45), (''hard'', 30)] d) 60;
             maxTime = expected * 2
         in if avgTime \<le> real_of_int expected then 40
            else if avgTime \<ge> real_of_int maxTime then 0
            else Math_round (((real_of_int maxTime - avgTime) / real_of_int expected) * 40)))"

definition avgQuality :: "'d activity list \<Rightarrow> real" where
  "avgQuality grp =
     foldl (\<lambda>sum a.
              let att = max (orDefault (attempts a) 1) 1;
                  time = max (orDefault (timeTaken a) 60) 1
              in sum + real_of_int (orDefault (score a) 50) / (real_of_int att * sqrt (real_of_int time)))
           0 grp
       / real (length grp)"

definition computeTrend :: "'d activity list \<Rightarrow> string" where
  "computeTrend solvedActs =
     (if length solvedActs < 4 then ''stable''
      else
        (let mid = length solvedActs div 2;
             newer = take mid solvedActs;
             older = drop mid solvedActs;
             delta = avgQuality newer - avgQuality older
         in if delta > 1 / 10 then ''improving''
            else if delta < - (1 / 10) then ''declining''
            else ''stable''))"

definition decidePuzzleType :: "nat \<Rightarrow> 'd activity list \<Rightarrow> int \<Rightarrow> string \<Rightarrow> string" where
  "decidePuzzleType totalDays solvedActs perf currentDifficulty =
     (if totalDays < 3 then ''sequence''
      else if length solvedActs < 2 then ''sequence''
      else if perf \<ge> 50 \<and> currentDifficulty \<noteq> ''easy'' then ''matrix''
      else ''sequence'')"

definition getAdaptiveDifficulty :: "('d::linorder) activity list \<Rightarrow> adaptive" where
  "getAdaptiveDifficulty allRecords =
     (let allActivities = getAllActivities allRecords;
          recentWindow = take 7 allActivities
      in if recentWindow = [] then
           \<lparr> puzzleType = ''sequence'', newDifficulty = ''easy'', performanceScore = 0,
             trend = ''stable'',
             reason = ''No history found. Starting with easy sequence puzzle.'' \<rparr>
         else
           (let solvedActs = filter solved recentWindow;
                currentDifficulty = getDominantDifficulty solvedActs;
                solveRate = real (length solvedActs) / real (length recentWindow);
                solveRateScore = Math_round (solveRate * 40);
                speedScore = computeSpeedScore solvedActs currentDifficulty;
                cleanSolves = length (filter (\<lambda>a. orDefault (attempts a) 1 \<le> 1) solvedActs);
                cleanSolveScore =
                  (if length solvedActs > 0
                   then Math_round ((real cleanSolves / real (length solvedActs)) * 20)
                   else 0);
                perf = solveRateScore + speedScore + cleanSolveScore;
                tr = computeTrend solvedActs;
                (d1, r1) =
                  (if perf \<ge> 75 then
                     (DIFFICULTY_UP currentDifficulty,
                      ''Score '' @ str_of_int perf @ ''/100 '' @ em_dash
                        @ '' strong performance. Increasing difficulty.'')
                   else if perf < 35 then
                     (DIFFICULTY_DOWN currentDifficulty,
                      ''Score '' @ str_of_int perf @ ''/100 '' @ em_dash
                        @ '' struggling. Decreasing difficulty.'')
                   else
                     (currentDifficulty,
                      ''Score '' @ str_of_int perf @ ''/100 '' @ em_dash
                        @ '' steady performance. Maintaining difficulty.''));
                (d2, r2) =
                  (if tr = ''improving'' \<and> d1 = currentDifficulty \<and> perf \<ge> 60
                   then (DIFFICULTY_UP currentDifficulty,
                         r1 @ '' Upward trend detected '' @ em_dash @ '' advancing early.'')
                   else (d1, r1));
                (d3, r3) =
                  (if tr = ''declining'' \<and> d2 = currentDifficulty \<and> perf \<le> 45
                   then (DIFFICULTY_DOWN currentDifficulty,
                         r2 @ '' Downward trend detected '' @ em_dash @ '' stepping back early.'')
                   else (d2, r2))
            in \<lparr> puzzleType = decidePuzzleType (length recentWindow) solvedActs perf d3,
                 newDifficulty = d3, performanceScore = perf, trend = tr, reason = r3 \<rparr>))"

text \<open>
  A history of seven days, each solved at difficulty hard on the first attempt in ten
  seconds.
\<close>

definition sevenHardDays :: "int activity list" where
  "sevenHardDays =
     map (\<lambda>d. \<lparr> date = d, uid = [], score = Some 90, timeTaken = Some 10,
                 difficulty = Some ''hard'', solved = True, attempts = Some 1,
                 puzzleSeed = [], synced = 0, createdAt = Some 0 \<rparr>)
         [1, 2, 3, 4, 5, 6, 7]"

section \<open>The generator in its environment (puzzleGenerator.js)\<close>

text \<open>
  What a function of the module can read beside its arguments: the clock, through
  \<^verbatim>\<open>dayjs()\<close>; the activity table, through \<^verbatim>\<open>getAdaptiveDifficulty()\<close>; and what earlier
  calls left behind. The module declares no variable that a call could change, so of
  the earlier calls only their number remains.
\<close>

record world =
  todayString :: string
  timeOfDay :: nat
  callCount :: nat
  activityRecords :: "int activity list"

datatype puzzle = Sequence seq_puzzle | Matrix mat_puzzle

text \<open>
  \<^verbatim>\<open>generateDailyPuzzle(date)\<close> reads both: \<^verbatim>\<open>date || dayjs().format("YYYY-MM-DD")\<close> takes
  the clock when the argument is missing or empty, and the difficulty engine reads the
  table.
\<close>

definition generateDailyPuzzle :: "digest \<Rightarrow> world \<Rightarrow> string option \<Rightarrow> error + puzzle" where
  "generateDailyPuzzle H w dateArg =
     (let today = (case dateArg of
                     None \<Rightarrow> todayString w
                   | Some d \<Rightarrow> if d = [] then todayString w else d);
          adaptive = getAdaptiveDifficulty (activityRecords w)
      in if puzzleType adaptive = ''sequence''
         then map_sum id Sequence (generateSequencePuzzle H today (newDifficulty adaptive))
         else map_sum id Matrix (generateMatrixPuzzle H today (newDifficulty adaptive)))"

text \<open>
  An invocation of one of the three exported generators in a world, and what happens
  between two invocations: another call is made, time passes, or the table is written.
\<close>

datatype call =
  CallSequence string string
| CallMatrix string string
| CallDaily "string option"

fun invoke :: "digest \<Rightarrow> world \<Rightarrow> call \<Rightarrow> error + puzzle" where
  "invoke H w (CallSequence d k) = map_sum id Sequence (generateSequencePuzzle H d k)"
| "invoke H w (CallMatrix d k) = map_sum id Matrix (generateMatrixPuzzle H d k)"
| "invoke H w (CallDaily d) = generateDailyPuzzle H w d"

datatype event =
  Called call
| ClockAt string nat
| TableIs "int activity list"

fun step :: "event \<Rightarrow> world \<Rightarrow> world" where
  "step (Called c) w = w\<lparr> callCount := callCount w + 1 \<rparr>"
| "step (ClockAt d t) w = w\<lparr> todayString := d, timeOfDay := t \<rparr>"
| "step (TableIs rs) w = w\<lparr> activityRecords := rs \<rparr>"

definition after :: "event list \<Rightarrow> world \<Rightarrow> world" where
  "after es w = fold step es w"

text \<open>A first world: 1 January 2024 at midnight, no call made, an empty table.\<close>

definition newYear :: world where
  "newYear = \<lparr> todayString = ''2024-01-01'', timeOfDay = 0, callCount = 0,
               activityRecords = [] \<rparr>"

section \<open>Hint budget (hintEngine.js)\<close>

text \<open>
  The argument \<open>db\<close> is what reading the table gives: \<open>None\<close> when the read throws, which
  the \<^verbatim>\<open>try\<close> block swallows before any bonus is added.
\<close>

definition computeHintBudget :: "('d::linorder) activity list option \<Rightarrow> string \<Rightarrow> int" where
  "computeHintBudget db d =
     (let base = orDefault (map_of [(''easy'', 3::int), (''medium'', 2), (''hard'', 1)] d) 1;
          bonus =
            (case db of
               None \<Rightarrow> 0
             | Some allRecords \<Rightarrow>
                 (let recent = getRecentSolvedActivities 7 allRecords;
                      accuracy = (if length recent > 0
                                  then real (length (filter solved recent)) / real (length recent)
                                  else 1);
                      bonus1 = (if accuracy < 1 / 2 then 1 else 0);
                      dates = sort (map date recent)
                  in if length dates \<ge> 7 then bonus1 + 1 else bonus1))
      in min (base + bonus) 4)"

section \<open>Streaks (retentionEngine.js, streakEngine.js)\<close>

text \<open>
  Both engines work on the \<^verbatim>\<open>YYYY-MM-DD\<close> strings of the solved days through the dayjs
  package, which is not part of the repository. The model reads a date as its day
  number. Formatting and \<^verbatim>\<open>subtract(1, "day")\<close> work on the calendar date: the cursor of
  the backward walk goes from day \<open>d\<close> to day \<open>d - 1\<close>; the default \<^verbatim>\<open>sort()\<close> of such
  strings is the order of the days, and \<open>today\<close> is the day of \<^verbatim>\<open>dayjs()\<close>.

  \<^verbatim>\<open>dayjs(a).diff(dayjs(b), "day")\<close> does not work on the calendar date but on the two
  instants, so its value depends on the time zone of the browser. The engines take it as
  a parameter \<open>dayDiff\<close>: \<open>dayDiff a b\<close> is that difference for the days \<open>a\<close> and \<open>b\<close>.
\<close>

record streaks =
  currentStreak :: nat
  longestStreak :: nat

text \<open>The forward pass of \<^verbatim>\<open>buildStreaks\<close>: state \<open>(longestStreak, run)\<close>, previous day.\<close>

fun forwardPass :: "(int \<Rightarrow> int \<Rightarrow> int) \<Rightarrow> nat \<Rightarrow> nat \<Rightarrow> int \<Rightarrow> int list \<Rightarrow> nat" where
  "forwardPass dayDiff longest run prev [] = longest"
| "forwardPass dayDiff longest run prev (d # ds) =
     (let run' = (if dayDiff d prev = 1 then run + 1 else 1);
          longest' = (if run' > longest then run' else longest)
      in forwardPass dayDiff longest' run' d ds)"

text \<open>The forward pass of \<^verbatim>\<open>calculateStreaks\<close>, which compares only after an increment.\<close>

fun forwardPass2 :: "(int \<Rightarrow> int \<Rightarrow> int) \<Rightarrow> nat \<Rightarrow> nat \<Rightarrow> int \<Rightarrow> int list \<Rightarrow> nat" where
  "forwardPass2 dayDiff longest runLength prev [] = longest"
| "forwardPass2 dayDiff longest runLength prev (d # ds) =
     (if dayDiff d prev = 1
      then (let runLength' = runLength + 1;
                longest' = (if runLength' > longest then runLength' else longest)
            in forwardPass2 dayDiff longest' runLength' d ds)
      else forwardPass2 dayDiff longest 1 d ds)"

text \<open>
  \<^verbatim>\<open>while (solvedSet.has(cursor)) { currentStreak++; cursor = cursor - 1 day }\<close>. Each turn
  moves the cursor below one more member of the finite set.
\<close>

function walkBack :: "int list \<Rightarrow> int \<Rightarrow> nat \<Rightarrow> nat" where
  "walkBack solvedDates cursor n =
     (if cursor \<in> set solvedDates then walkBack solvedDates (cursor - 1) (n + 1) else n)"
  by pat_completeness auto
termination
proof (relation "measure (\<lambda>(ds, cursor, n). length (filter (\<lambda>d. d \<le> cursor) ds))")
  show "wf (measure (\<lambda>(ds, cursor, n). length (filter (\<lambda>d. d \<le> cursor) ds)))"
    by simp
next
  fix solvedDates :: "int list" and cursor :: int and n :: nat
  assume mem: "cursor \<in> set solvedDates"
  have eq: "filter (\<lambda>d. d \<le> cursor - 1) solvedDates
            = filter (\<lambda>d. d \<le> cursor - 1) (filter (\<lambda>d. d \<le> cursor) solvedDates)"
    by (simp add: conj_commute) (rule filter_cong, auto)
  have "length (filter (\<lambda>d. d \<le> cursor - 1) (filter (\<lambda>d. d \<le> cursor) solvedDates))
        < length (filter (\<lambda>d. d \<le> cursor) solvedDates)"
    by (rule length_filter_less [where x = cursor]) (use mem in auto)
  then show "((solvedDates, cursor - 1, n + 1), (solvedDates, cursor, n))
             \<in> measure (\<lambda>(ds, cursor, n). length (filter (\<lambda>d. d \<le> cursor) ds))"
    using eq by simp
qed

declare walkBack.simps [simp del]

definition currentFrom :: "int \<Rightarrow> int list \<Rightarrow> nat" where
  "currentFrom today solvedDates =
     (let anchor = (if today \<in> set solvedDates then Some today
                    else if today - 1 \<in> set solvedDates then Some (today - 1)
                    else None)
      in case anchor of None \<Rightarrow> 0 | Some a \<Rightarrow> walkBack solvedDates a 0)"

definition buildStreaks :: "(int \<Rightarrow> int \<Rightarrow> int) \<Rightarrow> int \<Rightarrow> int list \<Rightarrow> streaks" where
  "buildStreaks dayDiff today solvedDates =
     (case solvedDates of
        [] \<Rightarrow> \<lparr> currentStreak = 0, longestStreak = 0 \<rparr>
      | d # ds \<Rightarrow> \<lparr> currentStreak = currentFrom today solvedDates,
                    longestStreak = forwardPass dayDiff 1 1 d ds \<rparr>)"

text \<open>The streak part of \<^verbatim>\<open>computeRetentionData\<close>.\<close>

definition computeRetentionData ::
  "(int \<Rightarrow> int \<Rightarrow> int) \<Rightarrow> int \<Rightarrow> int activity list \<Rightarrow> streaks" where
  "computeRetentionData dayDiff today allRecords =
     (let solvedActs = filter solved (getAllActivities allRecords);
          solvedDatesAsc = sort (map date solvedActs)
      in buildStreaks dayDiff today solvedDatesAsc)"

definition calculateStreaks ::
  "(int \<Rightarrow> int \<Rightarrow> int) \<Rightarrow> int \<Rightarrow> int activity list \<Rightarrow> streaks" where
  "calculateStreaks dayDiff today allRecords =
     (let solvedDates = sort (map date (filter solved (getAllActivities allRecords)))
      in case solvedDates of
           [] \<Rightarrow> \<lparr> currentStreak = 0, longestStreak = 0 \<rparr>
         | d # ds \<Rightarrow>
             (let longest = forwardPass2 dayDiff 1 1 d ds;
                  startDate = (if today \<in> set solvedDates then Some today
                               else if today - 1 \<in> set solvedDates then Some (today - 1)
                               else None)
              in case startDate of
                   None \<Rightarrow> \<lparr> currentStreak = 0, longestStreak = longest \<rparr>
                 | Some a \<Rightarrow> \<lparr> currentStreak = walkBack solvedDates a 0,
                               longestStreak = longest \<rparr>))"

text \<open>
  The day difference as dayjs computes it. \<^verbatim>\<open>dayjs("YYYY-MM-DD")\<close> is the instant of local
  midnight of that day, or the first instant of the day when the change to daylight
  saving time skips midnight. \<^verbatim>\<open>this.diff(that, "day")\<close> is
  \<^verbatim>\<open>(this - that - zoneDelta) / MILLISECONDS_A_DAY\<close> cut towards zero, where \<open>zoneDelta\<close> is
  \<^verbatim>\<open>that.utcOffset() - this.utcOffset()\<close>. A time zone gives, for every day, that instant
  and the offset from UTC in force at it, both in minutes.
\<close>

record zone =
  startOfDay :: "int \<Rightarrow> int"
  utcOffset :: "int \<Rightarrow> int"

definition cutDiv :: "int \<Rightarrow> int \<Rightarrow> int" where
  "cutDiv a b = (if a < 0 then - ((- a) div b) else a div b)"

definition dayjsDiff :: "zone \<Rightarrow> int \<Rightarrow> int \<Rightarrow> int" where
  "dayjsDiff z a b =
     cutDiv ((startOfDay z a - startOfDay z b) - (utcOffset z b - utcOffset z a)) 1440"

text \<open>A zone without daylight saving time, \<open>off\<close> minutes east of UTC.\<close>

definition fixedZone :: "int \<Rightarrow> zone" where
  "fixedZone off = \<lparr> startOfDay = (\<lambda>d. 1440 * d - off), utcOffset = (\<lambda>d. off) \<rparr>"

text \<open>
  Africa/Cairo around 26 April 2024 (day 19839), when the clocks went from 00:00 to
  01:00: two hours east of UTC before that day and three from it on, and the day itself
  starts at 01:00.
\<close>

definition cairo :: zone where
  "cairo =
     \<lparr> startOfDay = (\<lambda>d. if d < 19839 then 1440 * d - 120
                         else if d = 19839 then 1440 * d + 60 - 180
                         else 1440 * d - 180),
       utcOffset = (\<lambda>d. if d < 19839 then 120 else 180) \<rparr>"

text \<open>The days 24 to 28 April 2024, each with one solved record.\<close>

definition fiveCairoDays :: "int activity list" where
  "fiveCairoDays =
     map (\<lambda>d. \<lparr> date = d, uid = [], score = Some 80, timeTaken = Some 20,
                 difficulty = Some ''easy'', solved = True, attempts = Some 1,
                 puzzleSeed = [], synced = 0, createdAt = Some 0 \<rparr>)
         [19837, 19838, 19839, 19840, 19841]"

section \<open>Rolling average (insightsEngine.js)\<close>

text \<open>
  \<^verbatim>\<open>values.slice(i - window + 1, i + 1)\<close> is reached only when \<open>i \<ge> window - 1\<close>, where it
  is the \<open>window\<close> values ending at position \<open>i\<close>.
\<close>

definition rollingAverage :: "int list \<Rightarrow> nat \<Rightarrow> int option list" where
  "rollingAverage vals window =
     map (\<lambda>i. if int i < int window - 1 then None
               else (let slice = take window (drop (i + 1 - window) vals)
                     in Some (Math_round (real_of_int (foldl (\<lambda>s v. s + v) 0 slice) / real window))))
         [0..<length vals]"

record 'd trend_point =
  t_date :: 'd
  t_score :: int
  t_timeTaken :: int
  t_difficulty :: string
  t_attempts :: int
  rollingAvg :: "int option"

text \<open>The \<open>performanceTrend\<close> field of \<^verbatim>\<open>computeInsightsData\<close>.\<close>

definition performanceTrend :: "('d::linorder) activity list \<Rightarrow> 'd trend_point list" where
  "performanceTrend allRecords =
     (let solvedActs = filter solved (getAllActivities allRecords)
      in if solvedActs = [] then []
         else
           (let recentChron = rev (take 60 solvedActs);
                rawScores = map (\<lambda>s. orDefault (score s) 0) recentChron;
                rolling = rollingAverage rawScores 7
            in map (\<lambda>(s, i). \<lparr> t_date = date s,
                                t_score = orDefault (score s) 0,
                                t_timeTaken = orDefault (timeTaken s) 0,
                                t_difficulty = orDefault (difficulty s) ''easy'',
                                t_attempts = orDefault (attempts s) 1,
                                rollingAvg = rolling ! i \<rparr>)
                   (zip recentChron [0..<length recentChron])))"

text \<open>
  A history of three days of which only the last is solved, and a history of ten solved
  days with the scores 10, 10, 10, 10, 10, 10, 11, 10, 10, 10 in order of time.
\<close>

definition threeDaysOneSolved :: "int activity list" where
  "threeDaysOneSolved =
     [\<lparr> date = 1, uid = [], score = Some 0, timeTaken = Some 0, difficulty = Some ''hard'',
        solved = False, attempts = Some 2, puzzleSeed = [], synced = 0, createdAt = Some 0 \<rparr>,
      \<lparr> date = 2, uid = [], score = Some 0, timeTaken = Some 0, difficulty = Some ''hard'',
        solved = False, attempts = Some 3, puzzleSeed = [], synced = 0, createdAt = Some 0 \<rparr>,
      \<lparr> date = 3, uid = [], score = Some 40, timeTaken = Some 60, difficulty = Some ''hard'',
        solved = True, attempts = Some 2, puzzleSeed = [], synced = 0, createdAt = Some 0 \<rparr>]"

definition tenSolvedDays :: "int activity list" where
  "tenSolvedDays =
     map (\<lambda>(d, sc). \<lparr> date = d, uid = [], score = Some sc, timeTaken = Some 90,
                       difficulty = Some ''easy'', solved = True, attempts = Some 1,
                       puzzleSeed = [], synced = 0, createdAt = Some 0 \<rparr>)
         [(1, 10), (2, 10), (3, 10), (4, 10), (5, 10), (6, 10), (7, 11), (8, 10), (9, 10), (10, 10)]"

text \<open>
  The record of a first save, the argument that writes it into the cleared table at
  time 1000, and a later upsert for the same date.
\<close>

definition firstRecord :: "string activity" where
  "firstRecord =
     \<lparr> date = ''2024-01-01'', uid = ''u1'', score = Some 70, timeTaken = Some 30,
       difficulty = Some ''easy'', solved = True, attempts = Some 1,
       puzzleSeed = ''2024-01-01'', synced = 0, createdAt = Some 1000 \<rparr>"

definition firstPatch :: activity_patch where
  "firstPatch =
     \<lparr> p_date = JStr ''2024-01-01'', p_uid = Some ''u1'', p_score = Some 70,
       p_timeTaken = Some 30, p_difficulty = Some ''easy'', p_solved = Some True,
       p_attempts = Some 1, p_puzzleSeed = Some ''2024-01-01'', p_synced = JNum 0,
       p_createdAt = Some 1000 \<rparr>"

definition laterPatch :: activity_patch where
  "laterPatch =
     \<lparr> p_date = JStr ''2024-01-01'', p_uid = None, p_score = None, p_timeTaken = None,
       p_difficulty = None, p_solved = None, p_attempts = None, p_puzzleSeed = None,
       p_synced = JBool True, p_createdAt = Some 2000 \<rparr>"

text \<open>
  The days that carry a solved record, and "\<open>k\<close> is the number of consecutive days
  ending at day \<open>a\<close> that are all in \<open>S\<close>": the \<open>k\<close> days \<open>a, a - 1, \<dots>\<close> are in \<open>S\<close> and
  the day before them is not.
\<close>

definition solvedDays :: "int activity list \<Rightarrow> int set" where
  "solvedDays allRecords = set (map date (filter solved allRecords))"

definition runEndingAt :: "int set \<Rightarrow> int \<Rightarrow> nat \<Rightarrow> bool" where
  "runEndingAt S a k = ((\<forall>j<k. a - int j \<in> S) \<and> a - int k \<notin> S)"

text \<open>A history with the days 98, 99 and 100 solved and the day 96 played without success.\<close>

definition threeDayRun :: "int activity list" where
  "threeDayRun =
     map (\<lambda>(d, b). \<lparr> date = d, uid = [], score = Some 50, timeTaken = Some 50,
                      difficulty = Some ''easy'', solved = b, attempts = Some 1,
                      puzzleSeed = [], synced = 0, createdAt = Some 0 \<rparr>)
         [(99, True), (96, False), (100, True), (98, True)]"

section \<open>Auxiliary notions\<close>

text \<open>
  The cells of a row (a column) of the candidate list that are not blanked, and the
  invariant of the blanking loop: every blanked cell has at least two of them in its row
  and in its column.
\<close>

definition rowFree :: "nat list \<Rightarrow> nat list \<Rightarrow> nat \<Rightarrow> nat" where
  "rowFree inds B r = length (filter (\<lambda>i. i div 4 = r \<and> i \<notin> set B) inds)"

definition colFree :: "nat list \<Rightarrow> nat list \<Rightarrow> nat \<Rightarrow> nat" where
  "colFree inds B c = length (filter (\<lambda>i. i mod 4 = c \<and> i \<notin> set B) inds)"

definition blankInv :: "nat list \<Rightarrow> nat list \<Rightarrow> bool" where
  "blankInv inds B = (\<forall>i\<in>set B. 2 \<le> rowFree inds B (i div 4) \<and> 2 \<le> colFree inds B (i mod 4))"

text \<open>
  The invariant of the activity table: every record is stored under a date that is not
  empty and has its \<open>createdAt\<close> set.
\<close>

definition stamped :: "table \<Rightarrow> bool" where
  "stamped tbl = (\<forall>key e. tbl key = Some e \<longrightarrow> key \<noteq> [] \<and> createdAt e \<noteq> None)"

section \<open>The blanking loop\<close>

lemma set_set_add: "set (set_add x xs) = insert x (set xs)"
  by (auto simp: set_add_def)

lemma distinct_set_add: "distinct xs \<Longrightarrow> distinct (set_add x xs)"
  by (auto simp: set_add_def)

lemma length_set_add: "length (set_add x xs) \<le> Suc (length xs)"
  by (auto simp: set_add_def)

lemma visibleInRow_rowFree: "visibleInRow inds B idx = rowFree inds (set_add idx B) (idx div 4)"
  unfolding visibleInRow_def rowFree_def set_set_add
  by (rule arg_cong [where f = length], rule filter_cong) auto

lemma visibleInCol_colFree: "visibleInCol inds B idx = colFree inds (set_add idx B) (idx mod 4)"
  unfolding visibleInCol_def colFree_def set_set_add
  by (rule arg_cong [where f = length], rule filter_cong) auto

lemma rowFree_other: "r \<noteq> idx div 4 \<Longrightarrow> rowFree inds (set_add idx B) r = rowFree inds B r"
  unfolding rowFree_def set_set_add
  by (rule arg_cong [where f = length], rule filter_cong) auto

lemma colFree_other: "c \<noteq> idx mod 4 \<Longrightarrow> colFree inds (set_add idx B) c = colFree inds B c"
  unfolding colFree_def set_set_add
  by (rule arg_cong [where f = length], rule filter_cong) auto

lemma blankInv_step:
  assumes "blankInv inds B" "2 \<le> visibleInRow inds B idx" "2 \<le> visibleInCol inds B idx"
  shows "blankInv inds (set_add idx B)"
  unfolding blankInv_def
proof
  fix i assume i: "i \<in> set (set_add idx B)"
  have r: "2 \<le> rowFree inds (set_add idx B) (i div 4)"
  proof (cases "i div 4 = idx div 4")
    case True
    then show ?thesis using assms(2) by (simp add: visibleInRow_rowFree)
  next
    case False
    then have "i \<in> set B" using i by (auto simp: set_set_add)
    then show ?thesis using assms(1) False by (simp add: rowFree_other blankInv_def)
  qed
  have c: "2 \<le> colFree inds (set_add idx B) (i mod 4)"
  proof (cases "i mod 4 = idx mod 4")
    case True
    then show ?thesis using assms(3) by (simp add: visibleInCol_colFree)
  next
    case False
    then have "i \<in> set B" using i by (auto simp: set_set_add)
    then show ?thesis using assms(1) False by (simp add: colFree_other blankInv_def)
  qed
  show "2 \<le> rowFree inds (set_add idx B) (i div 4) \<and> 2 \<le> colFree inds (set_add idx B) (i mod 4)"
    using r c by simp
qed

lemma blankLoop_inv: "blankInv inds B \<Longrightarrow> blankInv inds (blankLoop inds cnt B xs)"
  by (induction xs arbitrary: B) (simp_all add: blankInv_step)

lemma blankLoop_subset: "set (blankLoop inds cnt B xs) \<subseteq> set B \<union> set xs"
proof (induction xs arbitrary: B)
  case Nil
  then show ?case by simp
next
  case (Cons idx rest)
  have a: "set (blankLoop inds cnt (set_add idx B) rest) \<subseteq> insert idx (set B) \<union> set rest"
    using Cons.IH [of "set_add idx B"] by (simp add: set_set_add)
  have b: "set (blankLoop inds cnt B rest) \<subseteq> set B \<union> set rest"
    by (rule Cons.IH)
  show ?case using a b by auto
qed

lemma blankLoop_distinct: "distinct B \<Longrightarrow> distinct (blankLoop inds cnt B xs)"
  by (induction xs arbitrary: B) (simp_all add: distinct_set_add)

lemma blankLoop_length:
  "int (length B) \<le> cnt \<Longrightarrow> int (length (blankLoop inds cnt B xs)) \<le> cnt"
proof (induction xs arbitrary: B)
  case Nil
  then show ?case by simp
next
  case (Cons idx rest)
  have "int (length B) < cnt \<Longrightarrow> int (length (set_add idx B)) \<le> cnt"
    using length_set_add [of idx B] by linarith
  with Cons show ?case by auto
qed

lemma fold_js_set:
  "\<forall>i\<in>set B. i < length xs \<Longrightarrow>
   fold (\<lambda>idx p. js_set p idx Null) B xs =
     map (\<lambda>j. if j \<in> set B then Null else xs ! j) [0..<length xs]"
proof (induction B arbitrary: xs)
  case Nil
  then show ?case by (simp add: map_nth)
next
  case (Cons b B)
  have b: "b < length xs" using Cons.prems by simp
  have "fold (\<lambda>idx p. js_set p idx Null) (b # B) xs
        = fold (\<lambda>idx p. js_set p idx Null) B (xs[b := Null])"
    using b by (simp add: js_set_def)
  also have "\<dots> = map (\<lambda>j. if j \<in> set B then Null else xs[b := Null] ! j) [0..<length xs]"
    using Cons.IH [of "xs[b := Null]"] Cons.prems by simp
  also have "\<dots> = map (\<lambda>j. if j \<in> set (b # B) then Null else xs ! j) [0..<length xs]"
    by (rule map_cong) (auto simp: nth_list_update)
  finally show ?case .
qed

lemma set_shuffledIndices: "set (shuffledIndices H dt) = {0..<16}"
  by (simp add: shuffledIndices_def)

lemma mset_shuffledIndices: "mset (shuffledIndices H dt) = mset [0..<16]"
  by (simp add: shuffledIndices_def)

lemma length_rowMajor: "length (rowMajor f) = 16"
  by (simp add: rowMajor_def length_concat comp_def sum_list_triv)


lemma nulls_map:
  "length (filter (\<lambda>c. c = Null) (map (\<lambda>j. if j \<in> set B then Null else Num (g j)) [0..<n]))
   \<le> length B"
proof -
  have "filter (\<lambda>c. c = Null) (map (\<lambda>j. if j \<in> set B then Null else Num (g j)) [0..<n])
        = map (\<lambda>j. if j \<in> set B then Null else Num (g j)) (filter (\<lambda>j. j \<in> set B) [0..<n])"
    by (simp add: filter_map comp_def)
  then have "length (filter (\<lambda>c. c = Null) (map (\<lambda>j. if j \<in> set B then Null else Num (g j)) [0..<n]))
        = length (filter (\<lambda>j. j \<in> set B) [0..<n])"
    by simp
  also have "\<dots> = card ({j. j \<in> set B} \<inter> set [0..<n])"
    by (rule distinct_length_filter) simp
  also have "\<dots> \<le> card (set B)"
    by (rule card_mono) auto
  also have "\<dots> \<le> length B"
    by (rule card_length)
  finally show ?thesis .
qed

lemma blankCells_shape:
  assumes "16 \<le> length flatGrid"
  shows "blankCells H flatGrid cnt dt =
           map (\<lambda>j. if j \<in> set (blankLoop (shuffledIndices H dt) cnt [] (shuffledIndices H dt))
                      then Null else Num (flatGrid ! j)) [0..<length flatGrid]"
proof -
  let ?B = "blankLoop (shuffledIndices H dt) cnt [] (shuffledIndices H dt)"
  have "set ?B \<subseteq> {0..<16}"
    using blankLoop_subset [of "shuffledIndices H dt" cnt "[]" "shuffledIndices H dt"]
    by (simp add: set_shuffledIndices)
  then have "\<forall>i\<in>set ?B. i < length (map Num flatGrid)"
    using assms by auto
  then have "fold (\<lambda>idx p. js_set p idx Null) ?B (map Num flatGrid) =
     map (\<lambda>j. if j \<in> set ?B then Null else map Num flatGrid ! j) [0..<length (map Num flatGrid)]"
    by (rule fold_js_set)
  also have "\<dots> = map (\<lambda>j. if j \<in> set ?B then Null else Num (flatGrid ! j)) [0..<length flatGrid]"
    by (rule map_cong) auto
  finally show ?thesis by (simp add: blankCells_def Let_def)
qed


lemma length_filter_mset_cong:
  "mset xs = mset ys \<Longrightarrow> length (filter P xs) = length (filter P ys)"
  by (metis mset_filter size_mset)

lemma blankInv_Nil: "blankInv inds []"
  by (simp add: blankInv_def)

lemma blankCells_visible:
  assumes len: "length flatGrid = 16" and i: "i < 16"
    and null: "blankCells H flatGrid cnt dt ! i = Null"
  shows "2 \<le> length (filter (\<lambda>j. j div 4 = i div 4 \<and> j \<noteq> i
                              \<and> blankCells H flatGrid cnt dt ! j \<noteq> Null) [0..<16])"
    and "2 \<le> length (filter (\<lambda>j. j mod 4 = i mod 4 \<and> j \<noteq> i
                              \<and> blankCells H flatGrid cnt dt ! j \<noteq> Null) [0..<16])"
proof -
  let ?S = "shuffledIndices H dt"
  let ?B = "blankLoop ?S cnt [] ?S"
  let ?g = "blankCells H flatGrid cnt dt"
  have shape: "?g = map (\<lambda>j. if j \<in> set ?B then Null else Num (flatGrid ! j)) [0..<16]"
    using blankCells_shape [of flatGrid H cnt dt] len by simp
  have nth: "\<And>j. j < 16 \<Longrightarrow> (?g ! j = Null) = (j \<in> set ?B)"
    by (subst shape) simp
  have iB: "i \<in> set ?B" using nth [OF i] null by simp
  have inv: "blankInv ?S ?B" by (rule blankLoop_inv) (rule blankInv_Nil)
  have "2 \<le> rowFree ?S ?B (i div 4)" using inv iB by (simp add: blankInv_def)
  also have "rowFree ?S ?B (i div 4)
             = length (filter (\<lambda>j. j div 4 = i div 4 \<and> j \<notin> set ?B) [0..<16])"
    unfolding rowFree_def by (rule length_filter_mset_cong) (rule mset_shuffledIndices)
  also have "\<dots> = length (filter (\<lambda>j. j div 4 = i div 4 \<and> j \<noteq> i \<and> ?g ! j \<noteq> Null) [0..<16])"
    by (rule arg_cong [where f = length], rule filter_cong) (use nth iB in auto)
  finally show "2 \<le> length (filter (\<lambda>j. j div 4 = i div 4 \<and> j \<noteq> i \<and> ?g ! j \<noteq> Null) [0..<16])" .
  have "2 \<le> colFree ?S ?B (i mod 4)" using inv iB by (simp add: blankInv_def)
  also have "colFree ?S ?B (i mod 4)
             = length (filter (\<lambda>j. j mod 4 = i mod 4 \<and> j \<notin> set ?B) [0..<16])"
    unfolding colFree_def by (rule length_filter_mset_cong) (rule mset_shuffledIndices)
  also have "\<dots> = length (filter (\<lambda>j. j mod 4 = i mod 4 \<and> j \<noteq> i \<and> ?g ! j \<noteq> Null) [0..<16])"
    by (rule arg_cong [where f = length], rule filter_cong) (use nth iB in auto)
  finally show "2 \<le> length (filter (\<lambda>j. j mod 4 = i mod 4 \<and> j \<noteq> i \<and> ?g ! j \<noteq> Null) [0..<16])" .
qed

lemma blankCells_nulls:
  assumes "16 \<le> length flatGrid" "0 \<le> cnt"
  shows "int (length (filter (\<lambda>c. c = Null) (blankCells H flatGrid cnt dt))) \<le> cnt"
proof -
  let ?S = "shuffledIndices H dt"
  let ?B = "blankLoop ?S cnt [] ?S"
  have "length (filter (\<lambda>c. c = Null) (blankCells H flatGrid cnt dt)) \<le> length ?B"
    unfolding blankCells_shape [OF assms(1)] by (rule nulls_map)
  moreover have "int (length ?B) \<le> cnt"
    by (rule blankLoop_length) (use assms(2) in simp)
  ultimately show ?thesis by linarith
qed

lemma built_length:
  "length (fst (buildArithmeticGrid H dt)) = 16"
  "length (fst (buildMultiplicationGrid H dt)) = 16"
  "length (fst (buildPolynomialGrid H dt)) = 16"
  by (simp_all add: buildArithmeticGrid_def buildMultiplicationGrid_def buildPolynomialGrid_def
        Let_def length_rowMajor)

lemma generateMatrixPuzzle_grid:
  "\<exists>p g. generateMatrixPuzzle H dt k = Inr p \<and> length g = 16 \<and> solution p = g \<and>
     grid p = blankCells H g
       (case map_of [(''easy'', 3), (''medium'', 5), (''hard'', 7)] k of
          None \<Rightarrow> 3 | Some n \<Rightarrow> n) dt"
proof -
  let ?b = "if pickMatrixPattern H dt k = ''multiplication'' then buildMultiplicationGrid H dt
             else if pickMatrixPattern H dt k = ''polynomial'' then buildPolynomialGrid H dt
             else buildArithmeticGrid H dt"
  obtain g h k where b: "?b = (g, h, k)" by (cases ?b) auto
  have "length (fst ?b) = 16" by (simp add: built_length)
  then have "length g = 16" using b by simp
  then show ?thesis
    using b unfolding generateMatrixPuzzle_def Let_def by (simp del: map_of.simps)
qed

lemma blankCells_length:
  "16 \<le> length flatGrid \<Longrightarrow> length (blankCells H flatGrid cnt dt) = length flatGrid"
  by (simp add: blankCells_shape)

text \<open>
  C1. For every date and every difficulty among easy, medium and hard, the grid of
  \<open>generateMatrixPuzzle\<close> has 16 cells, at most \<open>blankCount\<close> of them null (3, 5 and 7),
  and every null cell has at least two other cells that are not null in its row and at
  least two in its column.
\<close>

theorem matrix_redaction:
  assumes "k \<in> {''easy'', ''medium'', ''hard''}"
  shows "\<exists>p. generateMatrixPuzzle H dt k = Inr p
          \<and> length (grid p) = 16
          \<and> int (length (filter (\<lambda>c. c = Null) (grid p)))
               \<le> (if k = ''easy'' then 3 else if k = ''medium'' then 5 else 7)
          \<and> (\<forall>i<16. grid p ! i = Null \<longrightarrow>
                 2 \<le> length (filter (\<lambda>j. j div 4 = i div 4 \<and> j \<noteq> i \<and> grid p ! j \<noteq> Null) [0..<16])
               \<and> 2 \<le> length (filter (\<lambda>j. j mod 4 = i mod 4 \<and> j \<noteq> i \<and> grid p ! j \<noteq> Null) [0..<16]))"
proof -
  let ?n = "case map_of [(''easy'', 3), (''medium'', 5), (''hard'', 7)] k of
          None \<Rightarrow> (3::int) | Some n \<Rightarrow> n"
  obtain p g where p: "generateMatrixPuzzle H dt k = Inr p" and g: "length g = 16"
    and gp: "grid p = blankCells H g ?n dt"
    using generateMatrixPuzzle_grid [of H dt k] by blast
  have n: "?n = (if k = ''easy'' then 3 else if k = ''medium'' then 5 else 7)"
    using assms by auto
  have n0: "0 \<le> ?n" unfolding n by simp
  have g16: "16 \<le> length g" using g by simp
  have "length (grid p) = 16"
    using blankCells_length [OF g16, of H ?n dt] g gp by simp
  moreover have "int (length (filter (\<lambda>c. c = Null) (grid p)))
               \<le> (if k = ''easy'' then 3 else if k = ''medium'' then 5 else 7)"
    using blankCells_nulls [OF g16 n0, of H dt] gp n by simp
  moreover have "\<forall>i<16. grid p ! i = Null \<longrightarrow>
                 2 \<le> length (filter (\<lambda>j. j div 4 = i div 4 \<and> j \<noteq> i \<and> grid p ! j \<noteq> Null) [0..<16])
               \<and> 2 \<le> length (filter (\<lambda>j. j mod 4 = i mod 4 \<and> j \<noteq> i \<and> grid p ! j \<noteq> Null) [0..<16])"
    unfolding gp using blankCells_visible [OF g] by blast
  ultimately show ?thesis using p by blast
qed

theorem matrix_redaction_witness:
  "\<exists>p. generateMatrixPuzzle sha_table ''2024-01-01'' ''hard'' = Inr p
       \<and> length (grid p) = 16
       \<and> int (length (filter (\<lambda>c. c = Null) (grid p))) \<le> 7"
  using matrix_redaction [of "''hard''" sha_table "''2024-01-01''"] by auto

text \<open>
  C10. \<open>blankCells\<close> is given the 16 cells of a solution grid and a count of cells, a
  whole number that is not negative (its one call passes 3, 5 or 7). For every such
  grid and count and every date it returns an array of the length of the grid in which
  every cell that is not null is the number of the grid at the same index, in the same
  place, and at most \<open>count\<close> cells are null.
\<close>

theorem blankCells_frame:
  assumes "length flatGrid = 16" and "0 \<le> cnt"
  shows "length (blankCells H flatGrid cnt dt) = length flatGrid
       \<and> (\<forall>i<length flatGrid. blankCells H flatGrid cnt dt ! i \<noteq> Null \<longrightarrow>
              blankCells H flatGrid cnt dt ! i = Num (flatGrid ! i))
       \<and> int (length (filter (\<lambda>c. c = Null) (blankCells H flatGrid cnt dt))) \<le> cnt"
proof -
  have g: "16 \<le> length flatGrid" using assms(1) by simp
  have a: "length (blankCells H flatGrid cnt dt) = length flatGrid"
    by (rule blankCells_length [OF g])
  have b: "\<forall>i<length flatGrid. blankCells H flatGrid cnt dt ! i \<noteq> Null \<longrightarrow>
              blankCells H flatGrid cnt dt ! i = Num (flatGrid ! i)"
    by (simp add: blankCells_shape [OF g])
  show ?thesis using a b blankCells_nulls [OF g assms(2)] by blast
qed

theorem blankCells_frame_witness:
  "blankCells sha_table [4, 10, 16, 22, 7, 13, 19, 25, 10, 16, 22, 28, 13, 19, 25, 31] 7 ''2024-01-01''
     = [Null, Null, Num 16, Num 22, Num 7, Null, Null, Num 25,
        Null, Num 16, Num 22, Null, Num 13, Num 19, Num 25, Null]
   \<and> length (blankCells sha_table [4, 10, 16, 22, 7, 13, 19, 25, 10, 16, 22, 28, 13, 19, 25, 31] 7 ''2024-01-01'') = 16
   \<and> int (length (filter (\<lambda>c. c = Null)
        (blankCells sha_table [4, 10, 16, 22, 7, 13, 19, 25, 10, 16, 22, 28, 13, 19, 25, 31] 7 ''2024-01-01''))) \<le> 7"
proof -
  have v: "blankCells sha_table [4, 10, 16, 22, 7, 13, 19, 25, 10, 16, 22, 28, 13, 19, 25, 31] 7 ''2024-01-01''
     = [Null, Null, Num 16, Num 22, Num 7, Null, Null, Num 25,
        Null, Num 16, Num 22, Null, Num 13, Num 19, Num 25, Null]"
    by code_simp
  show ?thesis
    using blankCells_frame [of "[4, 10, 16, 22, 7, 13, 19, 25, 10, 16, 22, 28, 13, 19, 25, 31]" 7
            sha_table "''2024-01-01''"] v
    by simp
qed

section \<open>The generators and their environment\<close>

lemma generators_total:
  "\<exists>p q. generateSequencePuzzle H dt k = Inr p \<and> generateMatrixPuzzle H dt k = Inr q"
  unfolding generateSequencePuzzle_def generateMatrixPuzzle_def Let_def
  by (simp add: case_prod_beta del: map_of.simps)

lemma generateSequencePuzzle_pdate:
  "generateSequencePuzzle H dt k = Inr p \<Longrightarrow> pdate p = dt"
  unfolding generateSequencePuzzle_def Let_def
  by (auto simp: case_prod_beta simp del: map_of.simps)

text \<open>
  The environment is read where the source reads it: the same call of
  \<open>generateDailyPuzzle\<close> returns another puzzle once the table holds a week of fast
  solves at difficulty hard (a matrix puzzle instead of a sequence puzzle), and another
  one once the clock shows the next day.
\<close>

lemma getAdaptiveDifficulty_strong:
  fixes rs :: "('d::linorder) activity list"
  assumes "take 7 (getAllActivities rs) \<noteq> []"
    and "75 \<le> performanceScore (getAdaptiveDifficulty rs)"
  shows "newDifficulty (getAdaptiveDifficulty rs)
           = DIFFICULTY_UP (getDominantDifficulty (filter solved (take 7 (getAllActivities rs))))"
    and "puzzleType (getAdaptiveDifficulty rs)
           = decidePuzzleType (length (take 7 (getAllActivities rs)))
               (filter solved (take 7 (getAllActivities rs)))
               (performanceScore (getAdaptiveDifficulty rs))
               (newDifficulty (getAdaptiveDifficulty rs))"
  using assms unfolding getAdaptiveDifficulty_def Let_def
  by (simp_all add: case_prod_beta)

lemma adaptive_sevenHardDays:
  "puzzleType (getAdaptiveDifficulty sevenHardDays) = ''matrix''"
proof -
  have win: "take 7 (getAllActivities sevenHardDays) \<noteq> []"
    by (simp add: getAllActivities_def sevenHardDays_def)
  have perf: "performanceScore (getAdaptiveDifficulty sevenHardDays) = 100"
    by (simp add: getAdaptiveDifficulty_def getAllActivities_def sevenHardDays_def Let_def
          getDominantDifficulty_def computeSpeedScore_def Math_round_def case_prod_beta)
  have p75: "75 \<le> performanceScore (getAdaptiveDifficulty sevenHardDays)"
    unfolding perf by simp
  have dom: "getDominantDifficulty (filter solved (take 7 (getAllActivities sevenHardDays))) = ''hard''"
    by (simp add: getAllActivities_def sevenHardDays_def getDominantDifficulty_def)
  have nd: "newDifficulty (getAdaptiveDifficulty sevenHardDays) = ''hard''"
    unfolding getAdaptiveDifficulty_strong(1) [OF win p75] dom by (simp add: DIFFICULTY_UP_def)
  have len: "length (take 7 (getAllActivities sevenHardDays)) = 7"
    and lens: "length (filter solved (take 7 (getAllActivities sevenHardDays))) = 7"
    by (simp_all add: getAllActivities_def sevenHardDays_def)
  show ?thesis
    unfolding getAdaptiveDifficulty_strong(2) [OF win p75] perf nd len
    by (simp add: decidePuzzleType_def lens)
qed

lemma generateDailyPuzzle_reads_world:
  "invoke sha_table (after [TableIs sevenHardDays] newYear) (CallDaily None)
     \<noteq> invoke sha_table newYear (CallDaily None)
   \<and> invoke sha_table (after [ClockAt ''2024-01-02'' 0] newYear) (CallDaily None)
     \<noteq> invoke sha_table newYear (CallDaily None)"
proof
  obtain p where p: "generateSequencePuzzle sha_table ''2024-01-01'' ''easy'' = Inr p"
    using generators_total by blast
  obtain q where q: "generateMatrixPuzzle sha_table ''2024-01-01''
                       (newDifficulty (getAdaptiveDifficulty sevenHardDays)) = Inr q"
    using generators_total by blast
  have cold: "getAdaptiveDifficulty ([] :: int activity list)
                = \<lparr> puzzleType = ''sequence'', newDifficulty = ''easy'', performanceScore = 0,
                    trend = ''stable'',
                    reason = ''No history found. Starting with easy sequence puzzle.'' \<rparr>"
    by (simp add: getAdaptiveDifficulty_def getAllActivities_def)
  have a: "invoke sha_table newYear (CallDaily None) = Inr (Sequence p)"
    by (simp add: generateDailyPuzzle_def newYear_def cold p)
  have b: "invoke sha_table (after [TableIs sevenHardDays] newYear) (CallDaily None)
             = Inr (Matrix q)"
    by (simp add: generateDailyPuzzle_def newYear_def after_def adaptive_sevenHardDays q)
  show "invoke sha_table (after [TableIs sevenHardDays] newYear) (CallDaily None)
     \<noteq> invoke sha_table newYear (CallDaily None)"
    unfolding a b by simp
  obtain p' where p': "generateSequencePuzzle sha_table ''2024-01-02'' ''easy'' = Inr p'"
    using generators_total by blast
  have c: "invoke sha_table (after [ClockAt ''2024-01-02'' 0] newYear) (CallDaily None)
             = Inr (Sequence p')"
    by (simp add: generateDailyPuzzle_def newYear_def after_def cold p')
  have "pdate p = ''2024-01-01''" and "pdate p' = ''2024-01-02''"
    using generateSequencePuzzle_pdate [OF p] generateSequencePuzzle_pdate [OF p'] by simp_all
  then have "p \<noteq> p'" by auto
  then show "invoke sha_table (after [ClockAt ''2024-01-02'' 0] newYear) (CallDaily None)
     \<noteq> invoke sha_table newYear (CallDaily None)"
    unfolding a c by simp
qed


section \<open>A difficulty outside the three tiers\<close>

lemma map_of_outside:
  assumes "k \<notin> {''easy'', ''medium'', ''hard''}"
  shows "map_of [(''easy'', a), (''medium'', b), (''hard'', c)] k = None"
  using assms by simp

lemma pickSequencePattern_outside:
  assumes "k \<notin> {''easy'', ''medium'', ''hard''}"
  shows "pickSequencePattern H dt k = ''arithmetic''"
  using assms by (simp add: pickSequencePattern_def Let_def)

lemma genArithmetic_outside:
  assumes "k \<notin> {''easy'', ''medium'', ''hard''}"
  shows "genArithmetic H dt k = genArithmetic H dt ''easy''"
  using assms by (simp add: genArithmetic_def Let_def)

lemma pickMatrixPattern_outside:
  assumes "k \<notin> {''easy'', ''medium'', ''hard''}"
  shows "pickMatrixPattern H dt k = pickMatrixPattern H dt ''easy''"
  using assms by (simp add: pickMatrixPattern_def Let_def)

text \<open>
  C5, as amended. For every difficulty outside easy, medium and hard (and not a member
  name of \<open>Object.prototype\<close>) and every date string, well formed or not, neither
  generator fails: \<open>generateSequencePuzzle\<close> returns the arithmetic sequence drawn from
  the easy ranges and \<open>generateMatrixPuzzle\<close> returns the puzzle of difficulty easy (the
  arithmetic grid with blank count 3), each carrying the difficulty it was given. With
  any date string and any difficulty at all, both generators return a puzzle.
\<close>

theorem generators_default:
  assumes "k \<notin> {''easy'', ''medium'', ''hard''}" and "plain_key k"
  shows "generateSequencePuzzle H dt k =
           (case genArithmetic H dt ''easy'' of (terms, ans, h) \<Rightarrow>
              Inr \<lparr> ptype = ''sequence'', hint = h, patternKey = ''arithmetic'',
                    pdifficulty = k, pdate = dt, sequence = terms, answer = ans \<rparr>)
       \<and> (\<exists>p. generateMatrixPuzzle H dt ''easy'' = Inr p
              \<and> generateMatrixPuzzle H dt k = Inr (p\<lparr> pdifficulty := k \<rparr>))
       \<and> (\<forall>dt' k'. \<exists>p q. generateSequencePuzzle H dt' k' = Inr p
                           \<and> generateMatrixPuzzle H dt' k' = Inr q)"
proof (intro conjI)
  show "\<forall>dt' k'. \<exists>p q. generateSequencePuzzle H dt' k' = Inr p
                           \<and> generateMatrixPuzzle H dt' k' = Inr q"
    using generators_total by blast
next
  show "generateSequencePuzzle H dt k =
           (case genArithmetic H dt ''easy'' of (terms, ans, h) \<Rightarrow>
              Inr \<lparr> ptype = ''sequence'', hint = h, patternKey = ''arithmetic'',
                    pdifficulty = k, pdate = dt, sequence = terms, answer = ans \<rparr>)"
    unfolding generateSequencePuzzle_def Let_def pickSequencePattern_outside [OF assms(1)]
      genArithmetic_outside [OF assms(1)]
    by simp
next
  let ?b = "if pickMatrixPattern H dt ''easy'' = ''multiplication'' then buildMultiplicationGrid H dt
             else if pickMatrixPattern H dt ''easy'' = ''polynomial'' then buildPolynomialGrid H dt
             else buildArithmeticGrid H dt"
  obtain g h r where b: "?b = (g, h, r)" by (cases ?b) auto
  show "\<exists>p. generateMatrixPuzzle H dt ''easy'' = Inr p
              \<and> generateMatrixPuzzle H dt k = Inr (p\<lparr> pdifficulty := k \<rparr>)"
    using assms(1) b
    by (simp add: generateMatrixPuzzle_def Let_def pickMatrixPattern_outside [OF assms(1)])
qed

theorem generators_default_witness:
  "generateSequencePuzzle sha_table ''2024-01-01'' ''extreme'' =
     (case genArithmetic sha_table ''2024-01-01'' ''easy'' of (terms, ans, h) \<Rightarrow>
        Inr \<lparr> ptype = ''sequence'', hint = h, patternKey = ''arithmetic'',
              pdifficulty = ''extreme'', pdate = ''2024-01-01'', sequence = terms, answer = ans \<rparr>)
   \<and> (\<exists>p. generateMatrixPuzzle sha_table ''2024-01-01'' ''easy'' = Inr p
          \<and> generateMatrixPuzzle sha_table ''2024-01-01'' ''extreme'' = Inr (p\<lparr> pdifficulty := ''extreme'' \<rparr>))"
  using generators_default [of "''extreme''" sha_table "''2024-01-01''"]
  by (simp add: plain_key_def prototype_members_def)

text \<open>
  The claim as stated fails: with the difficulty \<^verbatim>\<open>extreme\<close>, and with the malformed date
  \<^verbatim>\<open>tomorrow\<close>, the generators return a puzzle.
\<close>

theorem generators_fail_fast_counterexample:
  "generateSequencePuzzle sha_table ''2024-01-01'' ''extreme'' =
     Inr \<lparr> ptype = ''sequence'', hint = ''Arithmetic sequence (+2 each term)'',
           patternKey = ''arithmetic'', pdifficulty = ''extreme'', pdate = ''2024-01-01'',
           sequence = [6, 8, 10, 12, 14], answer = 16 \<rparr>
   \<and> generateSequencePuzzle sha_table ''tomorrow'' ''easy'' =
     Inr \<lparr> ptype = ''sequence'', hint = ''Arithmetic sequence (+3 each term)'',
           patternKey = ''arithmetic'', pdifficulty = ''easy'', pdate = ''tomorrow'',
           sequence = [8, 11, 14, 17, 20], answer = 23 \<rparr>
   \<and> generateMatrixPuzzle sha_table ''2024-01-01'' ''extreme'' =
     Inr \<lparr> ptype = ''matrix'', hint = ''Row increases by 3, column increases by 6'',
           patternKey = ''arithmetic'', pdifficulty = ''extreme'', pdate = ''2024-01-01'',
           grid = [Num 4, Null, Num 16, Num 22, Num 7, Null, Num 19, Num 25,
                   Null, Num 16, Num 22, Num 28, Num 13, Num 19, Num 25, Num 31],
           solution = [4, 10, 16, 22, 7, 13, 19, 25, 10, 16, 22, 28, 13, 19, 25, 31] \<rparr>"
  by code_simp

section \<open>The performance score\<close>

lemma Math_round_bounds:
  assumes "0 \<le> x" and "x \<le> real_of_int n"
  shows "0 \<le> Math_round x" and "Math_round x \<le> n"
proof -
  have "real_of_int 0 \<le> x + 1 / 2" using assms(1) by simp
  then show "0 \<le> Math_round x" unfolding Math_round_def by (simp only: le_floor_iff)
  have "x + 1 / 2 < real_of_int (n + 1)" using assms(2) by simp
  then have "\<lfloor>x + 1 / 2\<rfloor> < n + 1" by (simp only: floor_less_iff)
  then show "Math_round x \<le> n" unfolding Math_round_def by simp
qed

lemma expected_pos:
  "0 < orDefault (map_of [(''easy'', 60::int), (''medium'', 45), (''hard'', 30)] d) 60"
  by simp

lemma computeSpeedScore_bounds:
  "0 \<le> computeSpeedScore acts d \<and> computeSpeedScore acts d \<le> 40"
proof (cases "acts = []")
  case True
  then show ?thesis by (simp add: computeSpeedScore_def)
next
  case False
  define avg where
    "avg = real_of_int (foldl (\<lambda>sum a. sum + orDefault (timeTaken a) 60) 0 acts) / real (length acts)"
  define e where "e = orDefault (map_of [(''easy'', 60::int), (''medium'', 45), (''hard'', 30)] d) 60"
  have e: "0 < e" unfolding e_def by (rule expected_pos)
  have eq: "computeSpeedScore acts d =
          (if avg \<le> real_of_int e then 40
           else if avg \<ge> real_of_int (e * 2) then 0
           else Math_round (((real_of_int (e * 2) - avg) / real_of_int e) * 40))"
    using False unfolding computeSpeedScore_def Let_def avg_def e_def by simp
  show ?thesis
  proof (cases "avg \<le> real_of_int e \<or> avg \<ge> real_of_int (e * 2)")
    case True
    then show ?thesis unfolding eq by auto
  next
    case False
    then have lo: "real_of_int e < avg" and hi: "avg < real_of_int (e * 2)" by auto
    let ?x = "((real_of_int (e * 2) - avg) / real_of_int e) * 40"
    have q0: "0 \<le> (real_of_int (e * 2) - avg) / real_of_int e"
      using hi e by simp
    have "real_of_int (e * 2) - avg \<le> real_of_int e" using lo by simp
    then have q1: "(real_of_int (e * 2) - avg) / real_of_int e \<le> 1"
      using e by (simp add: divide_le_eq)
    have x0: "0 \<le> ?x" using q0 by (rule mult_nonneg_nonneg) simp
    have "?x \<le> 1 * 40" using q1 by (rule mult_right_mono) simp
    then have x1: "?x \<le> real_of_int 40" by simp
    have "computeSpeedScore acts d = Math_round ?x" unfolding eq using False by simp
    then show ?thesis using Math_round_bounds [OF x0 x1] by simp
  qed
qed

lemma ratio_bounds:
  assumes "m \<le> n" and "0 < n" and "0 \<le> c"
  shows "0 \<le> real m / real n * real_of_int c" and "real m / real n * real_of_int c \<le> real_of_int c"
proof -
  have q0: "0 \<le> real m / real n" by simp
  have q1: "real m / real n \<le> 1" using assms(1,2) by (simp add: divide_le_eq)
  show "0 \<le> real m / real n * real_of_int c" using q0 assms(3) by simp
  show "real m / real n * real_of_int c \<le> real_of_int c"
    using mult_right_mono [OF q1, of "real_of_int c"] assms(3) by simp
qed

lemma getAdaptiveDifficulty_score:
  assumes "take 7 (getAllActivities allRecords) \<noteq> []"
  shows "performanceScore (getAdaptiveDifficulty allRecords) =
           Math_round (real (length (filter solved (take 7 (getAllActivities allRecords))))
                         / real (length (take 7 (getAllActivities allRecords))) * 40)
         + computeSpeedScore (filter solved (take 7 (getAllActivities allRecords)))
             (getDominantDifficulty (filter solved (take 7 (getAllActivities allRecords))))
         + (if filter solved (take 7 (getAllActivities allRecords)) = [] then 0
            else Math_round
                   (real (length (filter (\<lambda>a. orDefault (attempts a) 1 \<le> 1)
                                    (filter solved (take 7 (getAllActivities allRecords)))))
                      / real (length (filter solved (take 7 (getAllActivities allRecords)))) * 20))"
  using assms unfolding getAdaptiveDifficulty_def Let_def
  by (simp add: case_prod_beta)

lemma getAdaptiveDifficulty_cold:
  assumes "take 7 (getAllActivities allRecords) = []"
  shows "performanceScore (getAdaptiveDifficulty allRecords) = 0"
  using assms unfolding getAdaptiveDifficulty_def Let_def by simp

text \<open>
  C3. For every history whose difficulty values are plain keys, the performance score of
  \<open>getAdaptiveDifficulty\<close> lies between 0 and 100. When the window (the 7 newest
  records) is not empty, it is the sum of the solve-rate score (the rounded
  \<open>solved / window * 40\<close>, between 0 and 40), the speed score (between 0 and 40) and the
  clean-solve score (the rounded \<open>clean / solved * 20\<close>, or 0 without a solve;
  between 0 and 20).
\<close>

theorem performanceScore_sum_bounds:
  fixes allRecords :: "('d::linorder) activity list"
  assumes "\<forall>a\<in>set allRecords. \<forall>d. difficulty a = Some d \<longrightarrow> plain_key d"
  defines "w \<equiv> take 7 (getAllActivities allRecords)"
  defines "s \<equiv> filter solved w"
  defines "solveRateScore \<equiv> Math_round (real (length s) / real (length w) * 40)"
  defines "speedScore \<equiv> computeSpeedScore s (getDominantDifficulty s)"
  defines "cleanSolveScore \<equiv>
             (if s = [] then 0
              else Math_round (real (length (filter (\<lambda>a. orDefault (attempts a) 1 \<le> 1) s))
                                 / real (length s) * 20))"
  shows "0 \<le> performanceScore (getAdaptiveDifficulty allRecords)
       \<and> performanceScore (getAdaptiveDifficulty allRecords) \<le> 100
       \<and> (w \<noteq> [] \<longrightarrow>
            performanceScore (getAdaptiveDifficulty allRecords)
              = solveRateScore + speedScore + cleanSolveScore
            \<and> 0 \<le> solveRateScore \<and> solveRateScore \<le> 40
            \<and> 0 \<le> speedScore \<and> speedScore \<le> 40
            \<and> 0 \<le> cleanSolveScore \<and> cleanSolveScore \<le> 20)"
proof (cases "w = []")
  case True
  then show ?thesis using getAdaptiveDifficulty_cold [of allRecords] by (simp add: w_def)
next
  case False
  have sw: "length s \<le> length w" unfolding s_def by simp
  have w0: "0 < length w" using False by simp
  have a: "0 \<le> solveRateScore \<and> solveRateScore \<le> 40"
    unfolding solveRateScore_def
    using Math_round_bounds [OF ratio_bounds [OF sw w0, of 40]] by simp
  have b: "0 \<le> speedScore \<and> speedScore \<le> 40"
    unfolding speedScore_def by (rule computeSpeedScore_bounds)
  have c: "0 \<le> cleanSolveScore \<and> cleanSolveScore \<le> 20"
  proof (cases "s = []")
    case True
    then show ?thesis by (simp add: cleanSolveScore_def)
  next
    case False
    have cs: "length (filter (\<lambda>a. orDefault (attempts a) 1 \<le> 1) s) \<le> length s" by simp
    have s0: "0 < length s" using False by simp
    show ?thesis
      unfolding cleanSolveScore_def
      using False Math_round_bounds [OF ratio_bounds [OF cs s0, of 20]] by simp
  qed
  have eq: "performanceScore (getAdaptiveDifficulty allRecords)
              = solveRateScore + speedScore + cleanSolveScore"
    using getAdaptiveDifficulty_score [of allRecords] False
    unfolding w_def s_def solveRateScore_def speedScore_def cleanSolveScore_def
    by simp
  show ?thesis using a b c eq by simp
qed

theorem performanceScore_sum_bounds_witness:
  "performanceScore (getAdaptiveDifficulty sevenHardDays) = 100
   \<and> 0 \<le> performanceScore (getAdaptiveDifficulty sevenHardDays)
   \<and> performanceScore (getAdaptiveDifficulty sevenHardDays) \<le> 100"
proof -
  have plain: "\<forall>a\<in>set sevenHardDays. \<forall>d. difficulty a = Some d \<longrightarrow> plain_key d"
    by (simp add: sevenHardDays_def plain_key_def prototype_members_def)
  have v: "performanceScore (getAdaptiveDifficulty sevenHardDays) = 100"
    by (simp add: getAdaptiveDifficulty_def getAllActivities_def sevenHardDays_def Let_def
          getDominantDifficulty_def computeSpeedScore_def Math_round_def case_prod_beta)
  show ?thesis using performanceScore_sum_bounds [OF plain] v by simp
qed

section \<open>The hint budget\<close>

lemma filter_solved_recent:
  "filter solved (getRecentSolvedActivities n allRecords) = getRecentSolvedActivities n allRecords"
proof -
  have "\<forall>a\<in>set (take n (filter solved (getAllActivities allRecords))). solved a"
    by (auto dest: in_set_takeD)
  then show ?thesis unfolding getRecentSolvedActivities_def by (simp only: filter_True)
qed

lemma length_recent:
  "length (getRecentSolvedActivities n allRecords) = min (length (filter solved allRecords)) n"
proof -
  have "mset (filter solved (getAllActivities allRecords)) = mset (filter solved allRecords)"
    by (simp add: getAllActivities_def)
  then have "length (filter solved (getAllActivities allRecords)) = length (filter solved allRecords)"
    by (metis size_mset)
  then show ?thesis by (simp add: getRecentSolvedActivities_def)
qed

lemma recent_Nil_iff:
  "(getRecentSolvedActivities n allRecords = []) = (filter solved allRecords = [] \<or> n = 0)"
  by (auto simp: getRecentSolvedActivities_def getAllActivities_def filter_empty_conv)

text \<open>
  The accuracy that \<open>computeHintBudget\<close> computes is the share of solved records among
  records that \<open>getRecentSolvedActivities\<close> has already filtered to the solved ones: it
  is always 1, and the budget does not depend on any unsolved record.
\<close>

lemma computeHintBudget_closed_form:
  "computeHintBudget (Some allRecords) d =
     min (orDefault (map_of [(''easy'', 3::int), (''medium'', 2), (''hard'', 1)] d) 1
          + (if 7 \<le> length (filter solved allRecords) then 1 else 0)) 4"
proof -
  have z: "(min (length (filter solved allRecords)) 7 = 0) = (filter solved allRecords = [])"
    by (cases "filter solved allRecords") simp_all
  show ?thesis
    by (simp add: computeHintBudget_def Let_def filter_solved_recent length_recent recent_Nil_iff z)
qed

text \<open>
  C4. The claim asks for one more hint when the 7-day solve accuracy is below 50%. On a
  history of three days of which one is solved (accuracy 1/3), at difficulty hard, the
  claim gives \<open>1 + 1 = 2\<close>; \<open>computeHintBudget\<close> returns 1.
\<close>

theorem computeHintBudget_struggling:
  "computeHintBudget (Some threeDaysOneSolved) ''hard'' = 1"
  by (simp add: computeHintBudget_closed_form threeDaysOneSolved_def)

section \<open>The rolling average\<close>

lemma foldl_add_sum_list: "foldl (\<lambda>s v. s + v) a xs = a + sum_list (xs :: int list)"
  by (induction xs arbitrary: a) simp_all

lemma length_rollingAverage: "length (rollingAverage vals window) = length vals"
  by (simp add: rollingAverage_def)

lemma rollingAverage_nth:
  assumes "i < length vals"
  shows "rollingAverage vals 7 ! i =
           (if i < 6 then None
            else Some (Math_round (real_of_int (sum_list (take 7 (drop (i - 6) vals))) / 7)))"
proof -
  have "rollingAverage vals 7 ! i =
          (if int i < int 7 - 1 then None
           else (let slice = take 7 (drop (i + 1 - 7) vals)
                 in Some (Math_round (real_of_int (foldl (\<lambda>s v. s + v) 0 slice) / real 7))))"
    using assms unfolding rollingAverage_def by simp
  also have "\<dots> = (if i < 6 then None
            else Some (Math_round (real_of_int (sum_list (take 7 (drop (i - 6) vals))) / 7)))"
    by (simp add: foldl_add_sum_list Let_def)
  finally show ?thesis .
qed

lemma take_drop_nth:
  assumes "k + n \<le> length xs"
  shows "take n (drop k xs) = map ((!) xs) [k..<k + n]"
proof -
  have "take n (drop k xs) = take n (drop k (map ((!) xs) [0..<length xs]))"
    by (simp only: map_nth)
  also have "\<dots> = map ((!) xs) (take n (drop k [0..<length xs]))"
    by (simp only: take_map drop_map)
  also have "\<dots> = map ((!) xs) [k..<k + n]"
    using assms by simp
  finally show ?thesis .
qed

lemma sum_list_window:
  assumes "6 \<le> i" and "i < length vals"
  shows "sum_list (take 7 (drop (i - 6) vals)) = (\<Sum>j = i - 6..i. (vals :: int list) ! j)"
proof -
  have "take 7 (drop (i - 6) vals) = map ((!) vals) [i - 6..<i - 6 + 7]"
    by (rule take_drop_nth) (use assms in simp)
  also have "i - 6 + 7 = i + 1" using assms by simp
  finally have "sum_list (take 7 (drop (i - 6) vals)) = sum_list (map ((!) vals) [i - 6..<i + 1])"
    by simp
  also have "\<dots> = sum ((!) vals) (set [i - 6..<i + 1])"
    by (rule interv_sum_list_conv_sum_set_nat)
  also have "set [i - 6..<i + 1] = {i - 6..i}" by auto
  finally show ?thesis .
qed

lemma performanceTrend_shape:
  fixes allRecords :: "('d::linorder) activity list"
  defines "chron \<equiv> rev (take 60 (filter solved (getAllActivities allRecords)))"
  shows "length (performanceTrend allRecords) = length chron"
    and "i < length chron \<Longrightarrow>
           rollingAvg (performanceTrend allRecords ! i)
             = rollingAverage (map (\<lambda>s. orDefault (score s) 0) chron) 7 ! i"
proof -
  show "length (performanceTrend allRecords) = length chron"
    unfolding performanceTrend_def Let_def chron_def by simp
  assume i: "i < length chron"
  then have ne: "filter solved (getAllActivities allRecords) \<noteq> []"
    unfolding chron_def by auto
  have "performanceTrend allRecords ! i =
          (\<lambda>(s, i). \<lparr> t_date = date s,
                        t_score = orDefault (score s) 0,
                        t_timeTaken = orDefault (timeTaken s) 0,
                        t_difficulty = orDefault (difficulty s) ''easy'',
                        t_attempts = orDefault (attempts s) 1,
                        rollingAvg = rollingAverage (map (\<lambda>s. orDefault (score s) 0) chron) 7 ! i \<rparr>)
            (zip chron [0..<length chron] ! i)"
    using ne i unfolding performanceTrend_def Let_def chron_def by simp
  also have "zip chron [0..<length chron] ! i = (chron ! i, i)"
    using i by simp
  finally show "rollingAvg (performanceTrend allRecords ! i)
             = rollingAverage (map (\<lambda>s. orDefault (score s) 0) chron) 7 ! i"
    by simp
qed

text \<open>
  C6, as amended. Let the scores be those of the last 60 solved records in order of
  time. \<open>performanceTrend\<close> has one point per score; its \<open>rollingAvg\<close> is absent at
  every position before the 7th, and at every position \<open>i \<ge> 6\<close> it is the arithmetic
  mean of the 7 scores at positions \<open>i - 6\<close> to \<open>i\<close>, rounded to the nearest integer
  (half up).
\<close>

theorem rollingAvg_rounded_mean:
  fixes allRecords :: "('d::linorder) activity list"
  defines "scores \<equiv> map (\<lambda>s. orDefault (score s) 0)
                       (rev (take 60 (filter solved (getAllActivities allRecords))))"
  shows "length (performanceTrend allRecords) = length scores
       \<and> (\<forall>i<length scores.
            rollingAvg (performanceTrend allRecords ! i) =
              (if i < 6 then None
               else Some (Math_round (real_of_int (\<Sum>j = i - 6..i. scores ! j) / 7))))"
proof -
  let ?chron = "rev (take 60 (filter solved (getAllActivities allRecords)))"
  have len: "length (performanceTrend allRecords) = length scores"
    using performanceTrend_shape(1) [of allRecords] by (simp add: scores_def)
  have "rollingAvg (performanceTrend allRecords ! i) =
              (if i < 6 then None
               else Some (Math_round (real_of_int (\<Sum>j = i - 6..i. scores ! j) / 7)))"
    if i: "i < length scores" for i
  proof -
    have ic: "i < length ?chron" using i by (simp add: scores_def)
    have "rollingAvg (performanceTrend allRecords ! i) = rollingAverage scores 7 ! i"
      using performanceTrend_shape(2) [OF ic] by (simp add: scores_def)
    also have "\<dots> = (if i < 6 then None
            else Some (Math_round (real_of_int (sum_list (take 7 (drop (i - 6) scores))) / 7)))"
      by (rule rollingAverage_nth [OF i])
    also have "\<dots> = (if i < 6 then None
               else Some (Math_round (real_of_int (\<Sum>j = i - 6..i. scores ! j) / 7)))"
      using sum_list_window [of i scores] i by simp
    finally show ?thesis .
  qed
  then show ?thesis using len by blast
qed

theorem rollingAvg_rounded_mean_witness:
  "length (performanceTrend tenSolvedDays) = 10
   \<and> rollingAvg (performanceTrend tenSolvedDays ! 5) = None
   \<and> rollingAvg (performanceTrend tenSolvedDays ! 6) = Some 10"
proof -
  have sc: "map (\<lambda>s. orDefault (score s) 0)
              (rev (take 60 (filter solved (getAllActivities tenSolvedDays))))
            = [10, 10, 10, 10, 10, 10, 11, 10, 10, 10]"
    by (simp add: tenSolvedDays_def getAllActivities_def)
  have s6: "(\<Sum>j = 0..6. [10, 10, 10, 10, 10, 10, 11, 10, 10, 10 :: int] ! j) = 71"
    by (simp add: sum.atLeast0_atMost_Suc eval_nat_numeral)
  show ?thesis
    using rollingAvg_rounded_mean [of tenSolvedDays] s6
    unfolding sc by (simp add: Math_round_def)
qed

text \<open>
  The claim as stated, the exact mean, fails: the seven scores 10, 10, 10, 10, 10, 10, 11
  have the mean \<open>71 / 7\<close>, and the rolling average at their last position is 10.
\<close>

theorem rollingAvg_exact_mean_counterexample:
  "rollingAvg (performanceTrend tenSolvedDays ! 6) = Some 10
   \<and> real_of_int 10 \<noteq> (10 + 10 + 10 + 10 + 10 + 10 + 11) / 7"
proof -
  have "performanceTrend tenSolvedDays ! 6 =
          \<lparr> t_date = 7, t_score = 11, t_timeTaken = 90, t_difficulty = ''easy'',
            t_attempts = 1, rollingAvg = Some 10 \<rparr>"
    by (simp add: performanceTrend_def tenSolvedDays_def getAllActivities_def Let_def
          rollingAverage_def Math_round_def)
  then show ?thesis by simp
qed

section \<open>Upserts\<close>

text \<open>
  Every record that \<open>saveDailyActivity\<close> writes has its \<open>createdAt\<close> set and its
  \<open>synced\<close> equal to 0 or 1, and it is stored under its date.
\<close>

lemma saveDailyActivity_writes:
  assumes "saveDailyActivity now tbl a = Inr (r, tbl')"
  shows "createdAt r \<noteq> None \<and> synced r \<in> {0, 1} \<and> date r \<noteq> []
       \<and> tbl' = tbl(date r \<mapsto> r)"
  using assms unfolding saveDailyActivity_def Let_def
  by (auto split: jsval.splits if_splits)

lemma stamped_tableUpdate:
  assumes "stamped tbl" and "\<And>e. createdAt (changes e) = createdAt e"
  shows "stamped (tableUpdate tbl key changes)"
  using assms unfolding stamped_def tableUpdate_def
  by (auto split: option.splits if_splits)

lemma stamped_markActivitiesSynced:
  "stamped tbl \<Longrightarrow> stamped (markActivitiesSynced tbl dates)"
  unfolding markActivitiesSynced_def
  by (induction dates arbitrary: tbl) (simp_all add: stamped_tableUpdate)

lemma stamped_incrementAttempts:
  "stamped tbl \<Longrightarrow> stamped (incrementAttempts tbl d)"
  unfolding incrementAttempts_def patchActivity_def
  by (auto simp: stamped_tableUpdate split: option.splits)

lemma stamped_saveDailyActivity:
  assumes "stamped tbl" and "saveDailyActivity now tbl a = Inr (r, tbl')"
  shows "stamped tbl'"
proof -
  have w: "createdAt r \<noteq> None" "date r \<noteq> []" "tbl' = tbl(date r \<mapsto> r)"
    using saveDailyActivity_writes [OF assms(2)] by simp_all
  show ?thesis using assms(1) w unfolding stamped_def by auto
qed

lemma reachable_stamped: "reachable tbl \<Longrightarrow> stamped tbl"
proof (induction rule: reachable.induct)
  case cleared
  then show ?case by (simp add: stamped_def)
next
  case (saved tbl now a r tbl')
  then show ?case using stamped_saveDailyActivity by blast
next
  case (attempted tbl d)
  then show ?case by (simp add: stamped_incrementAttempts)
next
  case (marked tbl dates)
  then show ?case by (simp add: stamped_markActivitiesSynced)
qed

text \<open>
  C8. In every table the code can produce, when there is a record for the date of an
  upsert, \<open>saveDailyActivity\<close> succeeds, and the record it writes under that date has the
  \<open>createdAt\<close> of the existing record, whatever the argument carries and whatever the
  clock says; its \<open>synced\<close> is 0 or 1 whatever value the argument has for it.
\<close>

theorem saveDailyActivity_preserves:
  assumes "reachable tbl" and "tbl key = Some e" and "p_date a = JStr key"
  shows "\<exists>r. saveDailyActivity now tbl a = Inr (r, tbl(key \<mapsto> r))
            \<and> date r = key
            \<and> createdAt r = createdAt e
            \<and> synced r \<in> {0, 1}"
proof -
  have "key \<noteq> []" and "createdAt e \<noteq> None"
    using reachable_stamped [OF assms(1)] assms(2) unfolding stamped_def by blast+
  then obtain t where "key \<noteq> []" and "createdAt e = Some t" by blast
  then show ?thesis
    using assms(2,3) unfolding saveDailyActivity_def Let_def by simp
qed

theorem saveDailyActivity_preserves_witness:
  "\<exists>r. saveDailyActivity 5000 [''2024-01-01'' \<mapsto> firstRecord] laterPatch
          = Inr (r, [''2024-01-01'' \<mapsto> firstRecord](''2024-01-01'' \<mapsto> r))
       \<and> date r = ''2024-01-01''
       \<and> createdAt r = Some 1000
       \<and> synced r = 1"
proof -
  have first: "saveDailyActivity 1000 Map.empty firstPatch
                 = Inr (firstRecord, [''2024-01-01'' \<mapsto> firstRecord])"
    by (simp add: saveDailyActivity_def Let_def firstPatch_def firstRecord_def)
  have reach: "reachable [''2024-01-01'' \<mapsto> firstRecord]"
    by (rule reachable.saved [OF reachable.cleared first])
  have v: "\<And>r tbl'. saveDailyActivity 5000 [''2024-01-01'' \<mapsto> firstRecord] laterPatch = Inr (r, tbl')
             \<Longrightarrow> synced r = 1"
    by (auto simp: saveDailyActivity_def Let_def laterPatch_def)
  have "\<exists>r. saveDailyActivity 5000 [''2024-01-01'' \<mapsto> firstRecord] laterPatch
          = Inr (r, [''2024-01-01'' \<mapsto> firstRecord](''2024-01-01'' \<mapsto> r))
       \<and> date r = ''2024-01-01''
       \<and> createdAt r = createdAt firstRecord
       \<and> synced r \<in> {0, 1}"
    by (rule saveDailyActivity_preserves [OF reach]) (simp_all add: laterPatch_def)
  then show ?thesis using v by (auto simp: firstRecord_def)
qed

section \<open>Streaks\<close>

lemma walkBack_run:
  "\<exists>k. walkBack ds c n = n + k \<and> runEndingAt (set ds) c k"
proof (induction ds c n rule: walkBack.induct)
  case (1 ds c n)
  show ?case
  proof (cases "c \<in> set ds")
    case False
    then have "walkBack ds c n = n + 0 \<and> runEndingAt (set ds) c 0"
      by (simp add: walkBack.simps [of ds c n] runEndingAt_def)
    then show ?thesis by blast
  next
    case True
    from "1.IH" [OF True] obtain k where
      k: "walkBack ds (c - 1) (n + 1) = n + 1 + k" and run: "runEndingAt (set ds) (c - 1) k"
      by blast
    have "walkBack ds c n = n + Suc k"
      using True k by (simp add: walkBack.simps [of ds c n])
    moreover have "runEndingAt (set ds) c (Suc k)"
      unfolding runEndingAt_def
    proof (intro conjI allI impI)
      fix j assume j: "j < Suc k"
      show "c - int j \<in> set ds"
      proof (cases j)
        case 0
        then show ?thesis using True by simp
      next
        case (Suc j')
        then have "j' < k" using j by simp
        then have "c - 1 - int j' \<in> set ds" using run by (simp add: runEndingAt_def)
        then show ?thesis using Suc by (simp add: algebra_simps)
      qed
    next
      have "c - 1 - int k \<notin> set ds" using run by (simp add: runEndingAt_def)
      then show "c - int (Suc k) \<notin> set ds" by (simp add: algebra_simps)
    qed
    ultimately show ?thesis by blast
  qed
qed

lemma runEndingAt_unique:
  assumes "runEndingAt S a k" and "runEndingAt S a k'"
  shows "k = k'"
proof (rule ccontr)
  assume "k \<noteq> k'"
  then consider "k < k'" | "k' < k" by linarith
  then show False
  proof cases
    case 1
    then show False using assms by (auto simp: runEndingAt_def)
  next
    case 2
    then show False using assms by (auto simp: runEndingAt_def)
  qed
qed

lemma currentFrom_run:
  "(if today \<in> set ds then runEndingAt (set ds) today (currentFrom today ds)
    else if today - 1 \<in> set ds then runEndingAt (set ds) (today - 1) (currentFrom today ds)
    else currentFrom today ds = 0)"
proof -
  obtain k1 where k1: "walkBack ds today 0 = 0 + k1" "runEndingAt (set ds) today k1"
    using walkBack_run [of ds today 0] by blast
  obtain k2 where k2: "walkBack ds (today - 1) 0 = 0 + k2" "runEndingAt (set ds) (today - 1) k2"
    using walkBack_run [of ds "today - 1" 0] by blast
  show ?thesis using k1 k2 by (simp add: currentFrom_def)
qed

lemma set_solvedDatesAsc:
  "set (sort (map date (filter solved (getAllActivities allRecords)))) = solvedDays allRecords"
  by (auto simp: getAllActivities_def solvedDays_def)

lemma currentStreak_retention:
  "currentStreak (computeRetentionData dayDiff today allRecords)
     = currentFrom today (sort (map date (filter solved (getAllActivities allRecords))))"
  unfolding computeRetentionData_def Let_def buildStreaks_def
  by (cases "sort (map date (filter solved (getAllActivities allRecords)))")
     (simp_all add: currentFrom_def)

lemma currentStreak_calculate:
  "currentStreak (calculateStreaks dayDiff today allRecords)
     = currentFrom today (sort (map date (filter solved (getAllActivities allRecords))))"
  unfolding calculateStreaks_def Let_def
  by (cases "sort (map date (filter solved (getAllActivities allRecords)))")
     (simp_all add: currentFrom_def)

lemma currentFrom_three:
  assumes "set ds = {D - 2, D - 1, D}"
  shows "currentFrom D ds = 3"
proof -
  have a: "runEndingAt (set ds) D (currentFrom D ds)"
    using currentFrom_run [of D ds] assms by simp
  have "runEndingAt (set ds) D 3"
    unfolding runEndingAt_def assms
  proof (intro conjI allI impI)
    fix j :: nat assume "j < 3"
    then consider "j = 0" | "j = 1" | "j = 2" by linarith
    then show "D - int j \<in> {D - 2, D - 1, D}" by cases simp_all
  next
    show "D - int 3 \<notin> {D - 2, D - 1, D}" by simp
  qed
  then show ?thesis using a runEndingAt_unique by blast
qed

lemma currentFrom_gap:
  assumes "set ds = {D - 3, D - 2}"
  shows "currentFrom D ds = 0"
  using assms by (simp add: currentFrom_def)

text \<open>
  C7. Let \<open>S\<close> be the days with a solved record. In both engines, whatever day
  differences dayjs reports, \<open>currentStreak\<close> is the
  number of consecutive days ending at today that are all in \<open>S\<close> when today is in \<open>S\<close>;
  the number of consecutive days ending at yesterday when today is not in \<open>S\<close> and
  yesterday is; and 0 when neither is. When \<open>S\<close> is today and the two days before it, the
  streak is 3; when \<open>S\<close> is the days 3 and 2 before today, it is 0.
\<close>

theorem currentStreak_is_run:
  fixes allRecords :: "int activity list"
  defines "S \<equiv> solvedDays allRecords"
  shows "\<forall>c \<in> {currentStreak (computeRetentionData dayDiff today allRecords),
               currentStreak (calculateStreaks dayDiff today allRecords)}.
           (if today \<in> S then runEndingAt S today c
            else if today - 1 \<in> S then runEndingAt S (today - 1) c
            else c = 0)
         \<and> (S = {today - 2, today - 1, today} \<longrightarrow> c = 3)
         \<and> (S = {today - 3, today - 2} \<longrightarrow> c = 0)"
proof -
  let ?ds = "sort (map date (filter solved (getAllActivities allRecords)))"
  have s: "set ?ds = S" unfolding S_def by (rule set_solvedDatesAsc)
  have a: "(if today \<in> S then runEndingAt S today (currentFrom today ?ds)
            else if today - 1 \<in> S then runEndingAt S (today - 1) (currentFrom today ?ds)
            else currentFrom today ?ds = 0)"
    using currentFrom_run [of today ?ds] unfolding s .
  have b: "S = {today - 2, today - 1, today} \<longrightarrow> currentFrom today ?ds = 3"
    using currentFrom_three [of ?ds today] s by simp
  have c: "S = {today - 3, today - 2} \<longrightarrow> currentFrom today ?ds = 0"
    using currentFrom_gap [of ?ds today] s by simp
  show ?thesis
    unfolding currentStreak_retention currentStreak_calculate using a b c by simp
qed

theorem currentStreak_is_run_witness:
  "currentStreak (computeRetentionData (dayjsDiff cairo) 100 threeDayRun) = 3
   \<and> currentStreak (calculateStreaks (dayjsDiff cairo) 100 threeDayRun) = 3"
proof -
  have s: "solvedDays threeDayRun = {100 - 2, 100 - 1, 100}"
    by (auto simp: solvedDays_def threeDayRun_def)
  show ?thesis
    using currentStreak_is_run
            [where today = 100 and allRecords = threeDayRun and dayDiff = "dayjsDiff cairo"] s
    by simp
qed

subsection \<open>The longest run and the current one\<close>

lemma forwardPass_mono: "L \<le> forwardPass dd L r p ds"
proof (induction ds arbitrary: L r p)
  case Nil
  then show ?case by simp
next
  case (Cons d ds)
  let ?r = "if dd d p = 1 then r + 1 else 1"
  let ?L = "if ?r > L then ?r else L"
  have "L \<le> ?L" by simp
  also have "?L \<le> forwardPass dd ?L ?r d ds" by (rule Cons.IH)
  finally show ?case by (simp add: Let_def)
qed

lemma forwardPass2_eq:
  "r \<le> L \<Longrightarrow> 1 \<le> L \<Longrightarrow> forwardPass2 dd L r p ds = forwardPass dd L r p ds"
proof (induction ds arbitrary: L r p)
  case Nil
  then show ?case by simp
next
  case (Cons d ds)
  show ?case
  proof (cases "dd d p = 1")
    case True
    have A: "forwardPass2 dd L' (r + 1) d ds = forwardPass dd L' (r + 1) d ds"
      if "r + 1 \<le> L'" and "1 \<le> L'" for L'
      using that by (rule Cons.IH)
    show ?thesis using True A [of "r + 1"] A [of L] Cons.prems by (auto simp: Let_def)
  next
    case False
    have "forwardPass2 dd L 1 d ds = forwardPass dd L 1 d ds"
      by (rule Cons.IH) (use Cons.prems in auto)
    then show ?thesis using False Cons.prems by (simp add: Let_def)
  qed
qed

text \<open>
  When the day difference of two days is 1 exactly for adjacent days, the forward pass
  is the pass over the day numbers.
\<close>

lemma forwardPass_plain:
  assumes "\<forall>a b. (dd a b = 1) = (a - b = 1)"
  shows "forwardPass dd L r p ds = forwardPass (\<lambda>a b. a - b) L r p ds"
  using assms by (induction ds arbitrary: L r p) (simp_all add: Let_def)

lemma dayjsDiff_fixedZone: "dayjsDiff (fixedZone off) a b = a - b"
proof -
  have "(1440 * a - off - (1440 * b - off)) = (a - b) * 1440" by simp
  then show ?thesis
    unfolding dayjsDiff_def fixedZone_def cutDiv_def
    by (simp add: algebra_simps)
qed

lemma window_small:
  assumes "{a - int k <.. a} \<subseteq> {p - int r <.. p}"
  shows "k \<le> r"
proof (cases k)
  case 0
  then show ?thesis by simp
next
  case (Suc k')
  have "a \<in> {a - int k <.. a}" using Suc by simp
  then have "a \<in> {p - int r <.. p}" using assms by blast
  then have 1: "a \<le> p" by simp
  have "a - int k + 1 \<in> {a - int k <.. a}" using Suc by simp
  then have "a - int k + 1 \<in> {p - int r <.. p}" using assms by blast
  then have 2: "p - int r < a - int k + 1" by simp
  show ?thesis using 1 2 by linarith
qed

lemma forwardPass_covers:
  assumes "sorted_wrt (<) (p # ds)" and "r \<le> L"
    and "{a - int k <.. a} \<subseteq> set ds \<union> {p - int r <.. p}"
  shows "k \<le> forwardPass (\<lambda>a b. a - b) L r p ds"
  using assms
proof (induction ds arbitrary: L r p)
  case Nil
  then have "k \<le> r" using window_small [of a k p r] by simp
  then show ?case using Nil.prems by simp
next
  case (Cons d ds)
  let ?I = "{a - int k <.. a}"
  let ?r = "if d - p = 1 then r + 1 else 1"
  let ?L = "if ?r > L then ?r else L"
  have pd: "p < d" and above: "\<forall>x\<in>set ds. d < x" and srt: "sorted_wrt (<) (d # ds)"
    using Cons.prems(1) by auto
  have rL: "?r \<le> ?L" by simp
  have step: "forwardPass (\<lambda>a b. a - b) L r p (d # ds) = forwardPass (\<lambda>a b. a - b) ?L ?r d ds"
    by (simp add: Let_def)
  have LL: "L \<le> ?L" by simp
  show ?case
  proof (cases "?I \<subseteq> {p - int r <.. p}")
    case True
    then have "k \<le> r" by (rule window_small)
    also have "r \<le> L" by (rule Cons.prems(2))
    also have "L \<le> ?L" by (rule LL)
    also have "?L \<le> forwardPass (\<lambda>a b. a - b) ?L ?r d ds" by (rule forwardPass_mono)
    finally show ?thesis unfolding step .
  next
    case False
    then obtain x where x: "x \<in> ?I" "x \<notin> {p - int r <.. p}" by blast
    then have "x \<in> set (d # ds)" using Cons.prems(3) by blast
    then have dx: "d \<le> x" using above by auto
    have cover: "?I \<subseteq> set ds \<union> {d - int ?r <.. d}"
    proof
      fix y assume y: "y \<in> ?I"
      show "y \<in> set ds \<union> {d - int ?r <.. d}"
      proof (cases "d - p = 1")
        case True
        have "y \<in> set (d # ds) \<union> {p - int r <.. p}" using y Cons.prems(3) by blast
        then show ?thesis using True by auto
      next
        case False
        then have gap: "p + 1 < d" using pd by simp
        have "y \<in> set (d # ds)"
        proof (rule ccontr)
          assume n: "y \<notin> set (d # ds)"
          then have "y \<in> {p - int r <.. p}" using y Cons.prems(3) by blast
          then have yp: "y \<le> p" by simp
          have "p + 1 \<in> ?I" using y yp x(1) dx gap by simp
          then have "p + 1 \<in> set (d # ds) \<union> {p - int r <.. p}" using Cons.prems(3) by blast
          then have "p + 1 \<in> set (d # ds)" by simp
          then show False using above gap by auto
        qed
        then show ?thesis using False by auto
      qed
    qed
    have "k \<le> forwardPass (\<lambda>a b. a - b) ?L ?r d ds"
      by (rule Cons.IH [OF srt rL cover])
    then show ?thesis unfolding step .
  qed
qed

lemma run_interval:
  assumes "runEndingAt S a k"
  shows "{a - int k <.. a} \<subseteq> S"
proof
  fix x assume x: "x \<in> {a - int k <.. a}"
  define j where "j = nat (a - x)"
  have j: "j < k" using x by (auto simp: j_def)
  have xj: "x = a - int j" using x by (simp add: j_def)
  have "a - int j \<in> S" using assms j unfolding runEndingAt_def by blast
  then show "x \<in> S" using xj by simp
qed

lemma currentFrom_covered:
  "\<exists>a. {a - int (currentFrom today ds) <.. a} \<subseteq> set ds"
proof -
  have "(if today \<in> set ds then runEndingAt (set ds) today (currentFrom today ds)
    else if today - 1 \<in> set ds then runEndingAt (set ds) (today - 1) (currentFrom today ds)
    else currentFrom today ds = 0)"
    by (rule currentFrom_run)
  then consider "runEndingAt (set ds) today (currentFrom today ds)"
    | "runEndingAt (set ds) (today - 1) (currentFrom today ds)"
    | "currentFrom today ds = 0"
    by (auto split: if_splits)
  then show ?thesis
  proof cases
    case 1
    then show ?thesis using run_interval by blast
  next
    case 2
    then show ?thesis using run_interval by blast
  next
    case 3
    then show ?thesis by simp
  qed
qed

lemma current_le_forwardPass:
  assumes "sorted_wrt (<) (d # ds)"
  shows "currentFrom today (d # ds) \<le> forwardPass (\<lambda>a b. a - b) 1 1 d ds"
proof -
  obtain a where a: "{a - int (currentFrom today (d # ds)) <.. a} \<subseteq> set (d # ds)"
    using currentFrom_covered [of today "d # ds"] by blast
  have "set (d # ds) = set ds \<union> {d - int 1 <.. d}" by auto
  then have "{a - int (currentFrom today (d # ds)) <.. a} \<subseteq> set ds \<union> {d - int 1 <.. d}"
    using a by simp
  then show ?thesis
    using forwardPass_covers [OF assms, of 1 1 a "currentFrom today (d # ds)"] by simp
qed

lemma distinct_solvedDates:
  assumes "distinct (map date allRecords)"
  shows "sorted_wrt (<) (sort (map date (filter solved (getAllActivities allRecords))))"
proof -
  have "mset (map date (getAllActivities allRecords)) = mset (map date allRecords)"
    by (simp add: getAllActivities_def)
  then have "distinct (map date (getAllActivities allRecords))"
    using assms by (metis mset_eq_imp_distinct_iff)
  then have "distinct (map date (filter solved (getAllActivities allRecords)))"
    by (rule distinct_map_filter)
  then show ?thesis by (simp add: strict_sorted_iff)
qed

text \<open>
  In a time zone where the day difference of adjacent days is 1 and of no other days,
  a history with at most one record per day has \<open>longestStreak\<close> at least
  \<open>currentStreak\<close> in both engines.
\<close>

lemma longest_ge_current_plain:
  assumes "distinct (map date allRecords)"
    and plain: "\<forall>a b. (dd a b = 1) = (a - b = 1)"
  shows "currentStreak (computeRetentionData dd today allRecords)
           \<le> longestStreak (computeRetentionData dd today allRecords)
       \<and> currentStreak (calculateStreaks dd today allRecords)
           \<le> longestStreak (calculateStreaks dd today allRecords)"
proof (cases "sort (map date (filter solved (getAllActivities allRecords)))")
  case Nil
  then show ?thesis
    by (simp add: computeRetentionData_def calculateStreaks_def buildStreaks_def Let_def)
next
  case (Cons d ds)
  have srt: "sorted_wrt (<) (d # ds)"
    using distinct_solvedDates [OF assms(1)] Cons by simp
  have le: "currentFrom today (d # ds) \<le> forwardPass (\<lambda>a b. a - b) 1 1 d ds"
    by (rule current_le_forwardPass [OF srt])
  have l1: "longestStreak (computeRetentionData dd today allRecords)
              = forwardPass (\<lambda>a b. a - b) 1 1 d ds"
    using Cons
    by (simp add: computeRetentionData_def buildStreaks_def Let_def forwardPass_plain [OF plain])
  have l2: "longestStreak (calculateStreaks dd today allRecords)
              = forwardPass (\<lambda>a b. a - b) 1 1 d ds"
    using Cons
    by (simp add: calculateStreaks_def Let_def forwardPass2_eq forwardPass_plain [OF plain]
          split: option.splits)
  show ?thesis
    unfolding currentStreak_retention currentStreak_calculate l1 l2 Cons using le by simp
qed

lemma longest_ge_current_fixedZone:
  assumes "distinct (map date allRecords)"
  shows "currentStreak (computeRetentionData (dayjsDiff (fixedZone off)) today allRecords)
           \<le> longestStreak (computeRetentionData (dayjsDiff (fixedZone off)) today allRecords)
       \<and> currentStreak (calculateStreaks (dayjsDiff (fixedZone off)) today allRecords)
           \<le> longestStreak (calculateStreaks (dayjsDiff (fixedZone off)) today allRecords)"
  by (rule longest_ge_current_plain [OF assms]) (simp add: dayjsDiff_fixedZone)

text \<open>
  C9. The claim asks for \<open>longestStreak \<ge> currentStreak\<close> on every history with at most
  one record per day. In the time zone Africa/Cairo, on 28 April 2024, with one solved
  record on each of the five days 24 to 28 April, both engines return
  \<open>currentStreak = 5\<close> and \<open>longestStreak = 3\<close>: the 26th starts at 01:00, the 23 hours
  to the next midnight count as 0 days, and the forward pass starts a new run there.
\<close>

theorem longest_below_current_cairo:
  "distinct (map date fiveCairoDays)
   \<and> currentStreak (computeRetentionData (dayjsDiff cairo) 19841 fiveCairoDays) = 5
   \<and> longestStreak (computeRetentionData (dayjsDiff cairo) 19841 fiveCairoDays) = 3
   \<and> currentStreak (calculateStreaks (dayjsDiff cairo) 19841 fiveCairoDays) = 5
   \<and> longestStreak (calculateStreaks (dayjsDiff cairo) 19841 fiveCairoDays) = 3"
  by code_simp

end
